theory Spec2Isabelle
  imports Complex_Main "HOL-Library.Word" "HOL-Library.Sublist" "HOL-Library.Multiset"
begin

text \<open>
  The route handlers of an admin portal that keeps Request records (a requestor name, the
  item requested, a status, two timestamps) in one MongoDB collection: \<^verbatim>\<open>PUT\<close> creates a
  record, \<^verbatim>\<open>GET\<close> lists a page of records, \<^verbatim>\<open>PATCH\<close> sets the status of one, and
  \<^verbatim>\<open>ensureRequestsCollection\<close> creates the collection with its schema validator when it
  is missing. A handler is a function from a request and the state of the database to a
  response and the state it leaves. What it reads from outside the repository is a
  parameter: the clock, the identifier the driver generates, the page size of the
  configuration, and the \<^verbatim>\<open>mongodb\<close> package's \<^verbatim>\<open>ObjectId\<close> and \<^verbatim>\<open>findOneAndUpdate\<close>.
\<close>

section \<open>JavaScript strings and JSON values\<close>

text \<open>
  A JavaScript string is a sequence of UTF-16 code units and \<^verbatim>\<open>.length\<close> is the number
  of code units, so a string is a list of 16-bit words and \<^verbatim>\<open>.length\<close> is \<open>length\<close>.
  \<open>js\<close> embeds an ASCII literal of the source.
\<close>

type_synonym jsstring = "16 word list"

definition js :: "string \<Rightarrow> jsstring" where
  "js s = map of_char s"

text \<open>
  The value \<^verbatim>\<open>request.json()\<close> resolves to. An object is the list of its members in the
  order of the text; \<^verbatim>\<open>JSON.parse\<close> keeps the last of two members with one name.
\<close>

datatype json =
    JNull
  | JBool bool
  | JNum rat
  | JStr jsstring
  | JArr "json list"
  | JObj "(jsstring \<times> json) list"

text \<open>\<^verbatim>\<open>!body\<close> is \<open>\<not> truthy body\<close>.\<close>

fun truthy :: "json \<Rightarrow> bool" where
  "truthy JNull = False"
| "truthy (JBool b) = b"
| "truthy (JNum n) = (n \<noteq> 0)"
| "truthy (JStr s) = (s \<noteq> [])"
| "truthy (JArr xs) = True"
| "truthy (JObj kvs) = True"

text \<open>
  \<^verbatim>\<open>body.name\<close> for the four names the handlers read (requestorName, itemRequested, id,
  status): none of them is a property of a string, a number, a boolean, an array or of
  \<^verbatim>\<open>Object.prototype\<close>, so the read gives \<^verbatim>\<open>undefined\<close> (\<open>None\<close>) on everything but
  an object that has the member. The handlers read a property only behind the \<^verbatim>\<open>!body\<close>
  test, so \<open>property JNull\<close> is never consulted.
\<close>

fun property :: "json \<Rightarrow> jsstring \<Rightarrow> json option" where
  "property (JObj kvs) k = map_of (rev kvs) k"
| "property v k = None"

fun typeof :: "json option \<Rightarrow> string" where
  "typeof None = ''undefined''"
| "typeof (Some JNull) = ''object''"
| "typeof (Some (JBool b)) = ''boolean''"
| "typeof (Some (JNum n)) = ''number''"
| "typeof (Some (JStr s)) = ''string''"
| "typeof (Some (JArr xs)) = ''object''"
| "typeof (Some (JObj kvs)) = ''object''"

text \<open>The string a value is, read only where \<open>typeof\<close> has answered \<^verbatim>\<open>"string"\<close>.\<close>

fun strOf :: "json option \<Rightarrow> jsstring" where
  "strOf (Some (JStr s)) = s"
| "strOf v = []"

text \<open>White space and line terminators, as \<^verbatim>\<open>trim\<close> and \<^verbatim>\<open>parseInt\<close> strip them.\<close>

definition isWhiteSpace :: "16 word \<Rightarrow> bool" where
  "isWhiteSpace u =
     (u \<in> set [0x9, 0xA, 0xB, 0xC, 0xD, 0x20, 0xA0, 0x1680, 0x2028, 0x2029, 0x202F,
               0x205F, 0x3000, 0xFEFF]
      \<or> (0x2000 \<le> u \<and> u \<le> 0x200A))"

definition trim :: "jsstring \<Rightarrow> jsstring" where
  "trim s = rev (dropWhile isWhiteSpace (rev (dropWhile isWhiteSpace s)))"

section \<open>JavaScript numbers\<close>

text \<open>
  The numbers the handlers compute with are integers held in doubles. An integer of at
  most 53 significant bits is held exactly; one with more is rounded to the nearest
  double, a tie going to the even mantissa, and a result of \<open>2 ^ 1024\<close> or more is
  \<^verbatim>\<open>Infinity\<close>. \<open>bits\<close> is the length of a natural number in binary.
\<close>

datatype number = NaN | Num int | Infinity | MinusInfinity

fun bits :: "nat \<Rightarrow> nat" where
  "bits n = (if n = 0 then 0 else Suc (bits (n div 2)))"

declare bits.simps [simp del]

definition roundNat :: "nat \<Rightarrow> nat" where
  "roundNat m =
     (if bits m \<le> 53 then m
      else (let e = bits m - 53; q = m div 2 ^ e; r = m mod 2 ^ e in
            if 2 ^ (e - 1) < r \<or> (r = 2 ^ (e - 1) \<and> odd q) then (q + 1) * 2 ^ e
            else q * 2 ^ e))"

text \<open>The double nearest to an integer.\<close>

definition toNumber :: "int \<Rightarrow> number" where
  "toNumber i =
     (if 2 ^ 1024 \<le> roundNat (nat \<bar>i\<bar>) then (if i < 0 then MinusInfinity else Infinity)
      else if i < 0 then Num (- int (roundNat (nat \<bar>i\<bar>)))
      else Num (int (roundNat (nat \<bar>i\<bar>))))"

text \<open>\<^verbatim>\<open>x < 1\<close>, \<^verbatim>\<open>x - 1\<close> and \<^verbatim>\<open>x * n\<close> for a natural number \<open>n\<close> that a double holds.\<close>

fun lessThan1 :: "number \<Rightarrow> bool" where
  "lessThan1 (Num i) = (i < 1)"
| "lessThan1 MinusInfinity = True"
| "lessThan1 x = False"

fun minus1 :: "number \<Rightarrow> number" where
  "minus1 (Num i) = toNumber (i - 1)"
| "minus1 x = x"

fun multiply :: "number \<Rightarrow> nat \<Rightarrow> number" where
  "multiply (Num i) n = toNumber (i * int n)"
| "multiply NaN n = NaN"
| "multiply x n = (if n = 0 then NaN else x)"

section \<open>Errors and responses\<close>

datatype exn =
    InvalidInputError string
  | SyntaxError
  | TypeError
  | MongoError

text \<open>
  Modelled from the spec: the classes of \<^verbatim>\<open>@/lib/errors/inputExceptions\<close> are not among the
  sources. The spec has a failed boundary check answered by an input-validation error, so
  \<^verbatim>\<open>InvalidInputError\<close> is an \<^verbatim>\<open>InputException\<close>; no other exception is.
\<close>

fun instanceofInputException :: "exn \<Rightarrow> bool" where
  "instanceofInputException (InvalidInputError m) = True"
| "instanceofInputException e = False"

datatype ResponseType = INVALID_INPUT | UNKNOWN_ERROR

section \<open>The Request record and the storage layer\<close>

type_synonym ObjectId = "96 word"

text \<open>Dates are milliseconds since the epoch.\<close>

record RequestDocumentBase =
  requestorName :: jsstring
  itemRequested :: jsstring
  createdDate :: int
  lastEditedDate :: int
  status :: jsstring

text \<open>\<^verbatim>\<open>RequestDocumentBase & { _id: ObjectId }\<close>; the field \<^verbatim>\<open>_id\<close> is \<open>oid\<close>.\<close>

record RequestDocument = RequestDocumentBase +
  oid :: ObjectId

definition withId :: "RequestDocumentBase \<Rightarrow> ObjectId \<Rightarrow> RequestDocument" where
  "withId doc i =
     \<lparr>requestorName = requestorName doc, itemRequested = itemRequested doc,
      createdDate = createdDate doc, lastEditedDate = lastEditedDate doc,
      status = status doc, oid = i\<rparr>"

definition ALLOWED_STATUSES :: "jsstring list" where
  "ALLOWED_STATUSES = [js ''pending'', js ''completed'', js ''approved'', js ''rejected'']"

subsection \<open>The JSON-schema validator\<close>

datatype bson = BString jsstring | BDate int | BObjectId ObjectId

fun bsonTypeOf :: "bson \<Rightarrow> string" where
  "bsonTypeOf (BString s) = ''string''"
| "bsonTypeOf (BDate t) = ''date''"
| "bsonTypeOf (BObjectId i) = ''objectId''"

definition toBson :: "RequestDocument \<Rightarrow> (string \<times> bson) list" where
  "toBson d =
     [(''requestorName'', BString (requestorName d)),
      (''itemRequested'', BString (itemRequested d)),
      (''createdDate'', BDate (createdDate d)),
      (''lastEditedDate'', BDate (lastEditedDate d)),
      (''status'', BString (status d)),
      (''_id'', BObjectId (oid d))]"

text \<open>
  The length \<^verbatim>\<open>minLength\<close> and \<^verbatim>\<open>maxLength\<close> bound. JSON Schema defines the length of a
  string as the number of its characters (Unicode code points), and the server counts the
  code points of the stored UTF-8 text. In UTF-16 a character outside the Basic
  Multilingual Plane is a surrogate pair, two code units: a high surrogate followed by a
  low one is one character, every other code unit is one character (an unpaired surrogate
  is stored as the replacement character).
\<close>

definition isHighSurrogate :: "16 word \<Rightarrow> bool" where
  "isHighSurrogate u = (0xD800 \<le> u \<and> u \<le> 0xDBFF)"

definition isLowSurrogate :: "16 word \<Rightarrow> bool" where
  "isLowSurrogate u = (0xDC00 \<le> u \<and> u \<le> 0xDFFF)"

fun codePoints :: "jsstring \<Rightarrow> nat" where
  "codePoints [] = 0"
| "codePoints [u] = 1"
| "codePoints (u # v # us) =
     (if isHighSurrogate u \<and> isLowSurrogate v then Suc (codePoints us)
      else Suc (codePoints (v # us)))"

record propertySchema =
  bsonType :: "string option"
  minLength :: "nat option"
  maxLength :: "nat option"
  enum :: "bson list option"

text \<open>
  The \<^verbatim>\<open>$jsonSchema\<close> of a collection. Its own \<^verbatim>\<open>bsonType: "object"\<close> holds of every
  document and is left out.
\<close>

record jsonSchema =
  required :: "string list"
  additionalProperties :: bool
  properties :: "(string \<times> propertySchema) list"

definition anything :: propertySchema where
  "anything = \<lparr>bsonType = None, minLength = None, maxLength = None, enum = None\<rparr>"

definition requestsSchema :: jsonSchema where
  "requestsSchema =
     \<lparr>required = [''requestorName'', ''itemRequested'', ''createdDate'', ''status''],
      additionalProperties = False,
      properties =
        [(''_id'', anything),
         (''requestorName'', anything\<lparr>bsonType := Some ''string'', minLength := Some 3,
                                       maxLength := Some 30\<rparr>),
         (''itemRequested'', anything\<lparr>bsonType := Some ''string'', minLength := Some 2,
                                       maxLength := Some 100\<rparr>),
         (''createdDate'', anything\<lparr>bsonType := Some ''date''\<rparr>),
         (''lastEditedDate'', anything\<lparr>bsonType := Some ''date''\<rparr>),
         (''status'', anything\<lparr>bsonType := Some ''string'',
              enum := Some [BString (js ''pending''), BString (js ''completed''),
                            BString (js ''approved''), BString (js ''rejected'')]\<rparr>)]\<rparr>"

definition matchesProperty :: "propertySchema \<Rightarrow> bson \<Rightarrow> bool" where
  "matchesProperty p v =
     ((case bsonType p of None \<Rightarrow> True | Some t \<Rightarrow> bsonTypeOf v = t) \<and>
      (case minLength p of None \<Rightarrow> True
       | Some n \<Rightarrow> (case v of BString s \<Rightarrow> n \<le> codePoints s | BDate t \<Rightarrow> True
                    | BObjectId i \<Rightarrow> True)) \<and>
      (case maxLength p of None \<Rightarrow> True
       | Some n \<Rightarrow> (case v of BString s \<Rightarrow> codePoints s \<le> n | BDate t \<Rightarrow> True
                    | BObjectId i \<Rightarrow> True)) \<and>
      (case enum p of None \<Rightarrow> True | Some vs \<Rightarrow> v \<in> set vs))"

definition matchesSchema :: "jsonSchema \<Rightarrow> (string \<times> bson) list \<Rightarrow> bool" where
  "matchesSchema s d =
     (list_all (\<lambda>k. k \<in> set (map fst d)) (required s) \<and>
      (additionalProperties s \<or> list_all (\<lambda>kv. fst kv \<in> set (map fst (properties s))) d) \<and>
      list_all (\<lambda>kv. case map_of (properties s) (fst kv) of None \<Rightarrow> True
                      | Some p \<Rightarrow> matchesProperty p (snd kv)) d)"

subsection \<open>The database\<close>

text \<open>
  The state the handlers act on: whether the memoised client connected (\<open>reachable\<close>),
  the collection named \<^verbatim>\<open>requests\<close> if the database has one, and the driver calls issued
  so far, oldest first. A server that drops out between two calls of one handler is not
  modelled.
\<close>

datatype call =
    ListCollections | CreateCollection | InsertOne | CountDocuments | Find | FindOneAndUpdate

record collection =
  validator :: "jsonSchema option"
  documents :: "RequestDocument list"

record world =
  reachable :: bool
  requests :: "collection option"
  calls :: "call list"

definition docs :: "world \<Rightarrow> RequestDocument list" where
  "docs w = (case requests w of None \<Rightarrow> [] | Some c \<Rightarrow> documents c)"

definition rejects :: "collection \<Rightarrow> RequestDocument \<Rightarrow> bool" where
  "rejects c d = (case validator c of None \<Rightarrow> False | Some s \<Rightarrow> \<not> matchesSchema s (toBson d))"

definition getDb :: "world \<Rightarrow> exn + unit" where
  "getDb w = (if reachable w then Inr () else Inl MongoError)"

definition listCollections :: "world \<Rightarrow> jsstring list \<times> world" where
  "listCollections w =
     ((case requests w of None \<Rightarrow> [] | Some c \<Rightarrow> [js ''requests'']),
      w\<lparr>calls := calls w @ [ListCollections]\<rparr>)"

definition createCollection :: "jsonSchema \<Rightarrow> world \<Rightarrow> (exn + unit) \<times> world" where
  "createCollection s w =
     (case requests w of
        None \<Rightarrow> (Inr (), w\<lparr>requests := Some \<lparr>validator = Some s, documents = []\<rparr>,
                           calls := calls w @ [CreateCollection]\<rparr>)
      | Some c \<Rightarrow> (Inl MongoError, w\<lparr>calls := calls w @ [CreateCollection]\<rparr>))"

text \<open>
  \<^verbatim>\<open>insertOne\<close>: the driver gives the document the identifier it generated (\<open>newId\<close>);
  the server refuses a document its validator rejects and an identifier already in the
  collection, and creates a missing collection, without a validator.
\<close>

definition insertOne :: "ObjectId \<Rightarrow> RequestDocumentBase \<Rightarrow> world \<Rightarrow> (exn + ObjectId) \<times> world" where
  "insertOne newId doc w =
     (let w1 = w\<lparr>calls := calls w @ [InsertOne]\<rparr>; d = withId doc newId in
      case requests w of
        None \<Rightarrow> (Inr newId, w1\<lparr>requests := Some \<lparr>validator = None, documents = [d]\<rparr>\<rparr>)
      | Some c \<Rightarrow>
          if rejects c d then (Inl MongoError, w1)
          else if newId \<in> set (map oid (documents c)) then (Inl MongoError, w1)
          else (Inr newId, w1\<lparr>requests := Some (c\<lparr>documents := documents c @ [d]\<rparr>)\<rparr>))"

section \<open>initRequestsCollection\<close>

definition ensureRequestsCollection :: "world \<Rightarrow> (exn + unit) \<times> world" where
  "ensureRequestsCollection w =
     (case getDb w of
        Inl e \<Rightarrow> (Inl e, w)
      | Inr db \<Rightarrow>
          (case listCollections w of
             (collections, w1) \<Rightarrow>
               if length collections > 0 then (Inr (), w1)
               else createCollection requestsSchema w1))"

section \<open>The route handlers\<close>

record Request =
  json :: "json option"
  searchParams :: "(jsstring \<times> jsstring) list"

text \<open>An item of a response: the record with \<^verbatim>\<open>id\<close>, the identifier as a string (\<open>id'\<close>).\<close>

record Item = RequestDocumentBase +
  id' :: jsstring

record pagination =
  page :: number
  pageSize :: nat
  totalPages :: nat
  totalCount :: nat

text \<open>
  A response is built with a status code and a JSON body (\<open>Response\<close>), or by
  \<^verbatim>\<open>new ServerResponseBuilder(t).build()\<close> (\<open>Built t\<close>), whose class is not among the
  sources: only the response type it is given is known.
\<close>

datatype payload =
    Created RequestDocument
  | Listing "Item list" pagination
  | Updated Item

datatype Response = Response nat payload | Built ResponseType

definition validateCreateBody :: "json \<Rightarrow> exn + unit" where
  "validateCreateBody body =
     (if \<not> truthy body \<or>
         typeof (property body (js ''requestorName'')) \<noteq> ''string'' \<or>
         length (strOf (property body (js ''requestorName''))) < 3 \<or>
         length (strOf (property body (js ''requestorName''))) > 30 \<or>
         typeof (property body (js ''itemRequested'')) \<noteq> ''string'' \<or>
         length (strOf (property body (js ''itemRequested''))) < 2 \<or>
         length (strOf (property body (js ''itemRequested''))) > 100
      then Inl (InvalidInputError ''Invalid request body'')
      else Inr ())"

text \<open>
  \<open>PUT_try\<close> is the \<^verbatim>\<open>try\<close> block of \<^verbatim>\<open>PUT\<close>: \<open>Inl\<close> is the exception it leaves with.
  \<open>now\<close> is the clock read by \<^verbatim>\<open>new Date()\<close>. A body that is not JSON makes
  \<^verbatim>\<open>request.json()\<close> throw.
\<close>

definition PUT_try :: "int \<Rightarrow> ObjectId \<Rightarrow> Request \<Rightarrow> world \<Rightarrow> (exn + Response) \<times> world" where
  "PUT_try now newId request w =
     (case json request of
        None \<Rightarrow> (Inl SyntaxError, w)
      | Some body \<Rightarrow>
          (case validateCreateBody body of
             Inl e \<Rightarrow> (Inl e, w)
           | Inr u \<Rightarrow>
               (case ensureRequestsCollection w of
                  (Inl e, w1) \<Rightarrow> (Inl e, w1)
                | (Inr u1, w1) \<Rightarrow>
                    (case getDb w1 of
                       Inl e \<Rightarrow> (Inl e, w1)
                     | Inr db \<Rightarrow>
                         (let doc = \<lparr>requestorName = strOf (property body (js ''requestorName'')),
                                     itemRequested = strOf (property body (js ''itemRequested'')),
                                     createdDate = now,
                                     lastEditedDate = now,
                                     status = js ''pending''\<rparr>
                          in case insertOne newId doc w1 of
                               (Inl e, w2) \<Rightarrow> (Inl e, w2)
                             | (Inr insertedId, w2) \<Rightarrow>
                                 (Inr (Response 201 (Created (withId doc insertedId))), w2))))))"

definition PUT :: "int \<Rightarrow> ObjectId \<Rightarrow> Request \<Rightarrow> world \<Rightarrow> Response \<times> world" where
  "PUT now newId request w =
     (case PUT_try now newId request w of
        (Inr response, w') \<Rightarrow> (response, w')
      | (Inl e, w') \<Rightarrow>
          if instanceofInputException e then (Built INVALID_INPUT, w')
          else (Built UNKNOWN_ERROR, w'))"

text \<open>
  What the handlers use of the \<^verbatim>\<open>mongodb\<close> package, which is not part of the repository:
  \<^verbatim>\<open>ObjectId.isValid\<close>, \<^verbatim>\<open>new ObjectId(s)\<close> on a string \<open>isValid\<close> accepts,
  \<^verbatim>\<open>ObjectId.prototype.toString\<close>, what \<^verbatim>\<open>findOneAndUpdate\<close> resolves to: the
  document or \<^verbatim>\<open>null\<close> (drivers from version 6 on), or a \<^verbatim>\<open>ModifyResult\<close> object that
  holds it under \<^verbatim>\<open>value\<close> (\<open>includeResultMetadata\<close>, what earlier drivers do), and
  which numbers the driver and the server take as the \<^verbatim>\<open>skip\<close> of a query
  (\<open>acceptsSkip\<close>; a query with another one fails).
\<close>

record platform =
  isValid :: "jsstring \<Rightarrow> bool"
  newObjectId :: "jsstring \<Rightarrow> ObjectId"
  toString :: "ObjectId \<Rightarrow> jsstring"
  includeResultMetadata :: bool
  acceptsSkip :: "number \<Rightarrow> bool"

datatype findResult =
    Null
  | Document RequestDocument
  | ModifyResult "RequestDocument option"

definition resolved :: "platform \<Rightarrow> RequestDocument option \<Rightarrow> findResult" where
  "resolved pf r =
     (if includeResultMetadata pf then ModifyResult r
      else (case r of None \<Rightarrow> Null | Some d \<Rightarrow> Document d))"

fun updateFirst :: "('a \<Rightarrow> bool) \<Rightarrow> ('a \<Rightarrow> 'a) \<Rightarrow> 'a list \<Rightarrow> 'a list" where
  "updateFirst P f [] = []"
| "updateFirst P f (x # xs) = (if P x then f x # xs else x # updateFirst P f xs)"

text \<open>
  \<^verbatim>\<open>findOneAndUpdate({ _id }, { $set: { status, lastEditedDate } }, { returnDocument: "after" })\<close>:
  the first document with the identifier is updated, unless the validator rejects what
  it would become; no document is created when none matches.
\<close>

definition findOneAndUpdate ::
    "platform \<Rightarrow> ObjectId \<Rightarrow> jsstring \<Rightarrow> int \<Rightarrow> world \<Rightarrow> (exn + findResult) \<times> world" where
  "findOneAndUpdate pf i st now w =
     (let w1 = w\<lparr>calls := calls w @ [FindOneAndUpdate]\<rparr> in
      case requests w of
        None \<Rightarrow> (Inr (resolved pf None), w1)
      | Some c \<Rightarrow>
          (case find (\<lambda>d. oid d = i) (documents c) of
             None \<Rightarrow> (Inr (resolved pf None), w1)
           | Some d \<Rightarrow>
               (let d' = d\<lparr>status := st, lastEditedDate := now\<rparr> in
                if rejects c d' then (Inl MongoError, w1)
                else (Inr (resolved pf (Some d')),
                      w1\<lparr>requests := Some (c\<lparr>documents :=
                        updateFirst (\<lambda>d. oid d = i)
                          (\<lambda>d. d\<lparr>status := st, lastEditedDate := now\<rparr>) (documents c)\<rparr>)\<rparr>))))"

definition toItem :: "platform \<Rightarrow> RequestDocument \<Rightarrow> Item" where
  "toItem pf d =
     \<lparr>requestorName = requestorName d, itemRequested = itemRequested d,
      createdDate = createdDate d, lastEditedDate = lastEditedDate d,
      status = status d, id' = toString pf (oid d)\<rparr>"

definition validatePatchBody :: "json \<Rightarrow> exn + unit" where
  "validatePatchBody body =
     (if \<not> truthy body \<or> typeof (property body (js ''id'')) \<noteq> ''string'' \<or>
         trim (strOf (property body (js ''id''))) = []
      then Inl (InvalidInputError ''Invalid id'')
      else if typeof (property body (js ''status'')) \<noteq> ''string'' \<or>
              strOf (property body (js ''status'')) \<notin> set ALLOWED_STATUSES
      then Inl (InvalidInputError ''Invalid status'')
      else Inr ())"

text \<open>\<^verbatim>\<open>result.value\<close>: a Request document has no member of that name.\<close>

fun "value" :: "findResult \<Rightarrow> RequestDocument option" where
  "value (ModifyResult v) = v"
| "value r = None"

text \<open>
  The \<^verbatim>\<open>try\<close> block of the \<^verbatim>\<open>PATCH\<close> that tests \<^verbatim>\<open>!result || !result.value\<close> and reads the
  document from \<^verbatim>\<open>result.value\<close>.
\<close>

definition PATCH_try :: "platform \<Rightarrow> int \<Rightarrow> Request \<Rightarrow> world \<Rightarrow> (exn + Response) \<times> world" where
  "PATCH_try pf now request w =
     (case json request of
        None \<Rightarrow> (Inl SyntaxError, w)
      | Some body \<Rightarrow>
          (case validatePatchBody body of
             Inl e \<Rightarrow> (Inl e, w)
           | Inr u \<Rightarrow>
               if \<not> isValid pf (strOf (property body (js ''id'')))
               then (Inl (InvalidInputError ''Invalid id''), w)
               else
                 (case ensureRequestsCollection w of
                    (Inl e, w1) \<Rightarrow> (Inl e, w1)
                  | (Inr u1, w1) \<Rightarrow>
                      (case getDb w1 of
                         Inl e \<Rightarrow> (Inl e, w1)
                       | Inr db \<Rightarrow>
                           (case findOneAndUpdate pf
                                   (newObjectId pf (strOf (property body (js ''id''))))
                                   (strOf (property body (js ''status''))) now w1 of
                              (Inl e, w2) \<Rightarrow> (Inl e, w2)
                            | (Inr result, w2) \<Rightarrow>
                                (case value result of
                                   None \<Rightarrow> (Inl (InvalidInputError ''Request not found''), w2)
                                 | Some d \<Rightarrow>
                                     (Inr (Response 200 (Updated (toItem pf d))), w2)))))))"

definition PATCH :: "platform \<Rightarrow> int \<Rightarrow> Request \<Rightarrow> world \<Rightarrow> Response \<times> world" where
  "PATCH pf now request w =
     (case PATCH_try pf now request w of
        (Inr response, w') \<Rightarrow> (response, w')
      | (Inl e, w') \<Rightarrow>
          if instanceofInputException e then (Built INVALID_INPUT, w')
          else (Built UNKNOWN_ERROR, w'))"

text \<open>
  The typed \<^verbatim>\<open>PATCH\<close>, which tests \<^verbatim>\<open>!result\<close> and takes \<^verbatim>\<open>result\<close> itself for the
  document: on a \<^verbatim>\<open>ModifyResult\<close> its \<^verbatim>\<open>d._id\<close> is \<^verbatim>\<open>undefined\<close> and
  \<^verbatim>\<open>d._id.toString()\<close> throws a \<^verbatim>\<open>TypeError\<close>.
\<close>

definition PATCH_typed_try ::
    "platform \<Rightarrow> int \<Rightarrow> Request \<Rightarrow> world \<Rightarrow> (exn + Response) \<times> world" where
  "PATCH_typed_try pf now request w =
     (case json request of
        None \<Rightarrow> (Inl SyntaxError, w)
      | Some body \<Rightarrow>
          (case validatePatchBody body of
             Inl e \<Rightarrow> (Inl e, w)
           | Inr u \<Rightarrow>
               if \<not> isValid pf (strOf (property body (js ''id'')))
               then (Inl (InvalidInputError ''Invalid id''), w)
               else
                 (case ensureRequestsCollection w of
                    (Inl e, w1) \<Rightarrow> (Inl e, w1)
                  | (Inr u1, w1) \<Rightarrow>
                      (case getDb w1 of
                         Inl e \<Rightarrow> (Inl e, w1)
                       | Inr db \<Rightarrow>
                           (case findOneAndUpdate pf
                                   (newObjectId pf (strOf (property body (js ''id''))))
                                   (strOf (property body (js ''status''))) now w1 of
                              (Inl e, w2) \<Rightarrow> (Inl e, w2)
                            | (Inr result, w2) \<Rightarrow>
                                (case result of
                                   Null \<Rightarrow> (Inl (InvalidInputError ''Request not found''), w2)
                                 | Document d \<Rightarrow>
                                     (Inr (Response 200 (Updated (toItem pf d))), w2)
                                 | ModifyResult v \<Rightarrow> (Inl TypeError, w2)))))))"

definition PATCH_typed :: "platform \<Rightarrow> int \<Rightarrow> Request \<Rightarrow> world \<Rightarrow> Response \<times> world" where
  "PATCH_typed pf now request w =
     (case PATCH_typed_try pf now request w of
        (Inr response, w') \<Rightarrow> (response, w')
      | (Inl e, w') \<Rightarrow>
          if instanceofInputException e then (Built INVALID_INPUT, w')
          else (Built UNKNOWN_ERROR, w'))"

subsection \<open>GET\<close>

fun strOfParam :: "jsstring option \<Rightarrow> jsstring" where
  "strOfParam None = []"
| "strOfParam (Some s) = s"

text \<open>\<^verbatim>\<open>url.searchParams.get(k)\<close>: the first value of the name, \<^verbatim>\<open>null\<close> when it has none.\<close>

definition get :: "Request \<Rightarrow> jsstring \<Rightarrow> jsstring option" where
  "get request k = map_of (searchParams request) k"

definition isDigit :: "16 word \<Rightarrow> bool" where
  "isDigit u = (0x30 \<le> u \<and> u \<le> 0x39)"

definition decimal :: "jsstring \<Rightarrow> nat" where
  "decimal ds = foldl (\<lambda>a u. 10 * a + (unat u - 48)) 0 ds"

text \<open>
  \<^verbatim>\<open>parseInt(s, 10)\<close>: leading white space is skipped, then a sign, then the longest run
  of digits is read and the rest ignored. With no digit the answer is \<^verbatim>\<open>NaN\<close>, else the
  double nearest to the integer read (the language lets an implementation approximate
  an integer of more than 20 digits; the engines round it correctly).
\<close>

definition parseInt :: "jsstring \<Rightarrow> number" where
  "parseInt s =
     (let t = dropWhile isWhiteSpace s;
          negative = (t \<noteq> [] \<and> hd t = 0x2D);
          r = (if t \<noteq> [] \<and> (hd t = 0x2D \<or> hd t = 0x2B) then tl t else t);
          ds = takeWhile isDigit r
      in if ds = [] then NaN
         else toNumber (if negative then - int (decimal ds) else int (decimal ds)))"

text \<open>The query of \<^verbatim>\<open>GET\<close>: \<^verbatim>\<open>{}\<close> (\<open>None\<close>) or \<^verbatim>\<open>{ status }\<close>.\<close>

definition matches :: "jsstring option \<Rightarrow> RequestDocument \<Rightarrow> bool" where
  "matches query d = (case query of None \<Rightarrow> True | Some s \<Rightarrow> status d = s)"

definition countDocuments :: "jsstring option \<Rightarrow> world \<Rightarrow> nat \<times> world" where
  "countDocuments query w =
     (length (filter (matches query) (docs w)), w\<lparr>calls := calls w @ [CountDocuments]\<rparr>)"

text \<open>\<^verbatim>\<open>limit(0)\<close> is no limit.\<close>

definition limit :: "nat \<Rightarrow> 'a list \<Rightarrow> 'a list" where
  "limit n xs = (if n = 0 then xs else take n xs)"

text \<open>
  \<^verbatim>\<open>skip(k)\<close>, where the platform takes \<open>k\<close>: an integer leaves out that many documents,
  \<^verbatim>\<open>Infinity\<close> all of them (\<^verbatim>\<open>NaN\<close> comes up only with a page size of 0).
\<close>

fun skipped :: "number \<Rightarrow> 'a list \<Rightarrow> 'a list" where
  "skipped (Num k) xs = drop (nat k) xs"
| "skipped x xs = []"

text \<open>\<^verbatim>\<open>find(query).sort({ createdDate: -1 }).skip(k).limit(n).toArray()\<close>.\<close>

definition findSorted ::
    "platform \<Rightarrow> jsstring option \<Rightarrow> number \<Rightarrow> nat \<Rightarrow> world
      \<Rightarrow> (exn + RequestDocument list) \<times> world" where
  "findSorted pf query k n w =
     (if acceptsSkip pf k
      then (Inr (limit n (skipped k (sort_key (\<lambda>d. - createdDate d)
                                       (filter (matches query) (docs w))))),
            w\<lparr>calls := calls w @ [Find]\<rparr>)
      else (Inl MongoError, w\<lparr>calls := calls w @ [Find]\<rparr>))"

text \<open>
  The \<^verbatim>\<open>try\<close> block of \<^verbatim>\<open>GET\<close>, given the \<^verbatim>\<open>status\<close> parameter and the page number
  the handler has read. \<open>PAGINATION_PAGE_SIZE\<close> is the constant of
  \<^verbatim>\<open>@/lib/constants/config\<close>, which is not among the sources: a positive integer
  (with 0 the quotient \<^verbatim>\<open>totalCount / pageSize\<close> is not a finite number, which the
  natural number \<open>totalPages\<close> cannot hold). Both queries of \<^verbatim>\<open>Promise.all\<close> are issued;
  when one fails the block leaves with its exception.
\<close>

definition GET_try ::
    "nat \<Rightarrow> platform \<Rightarrow> jsstring option \<Rightarrow> number \<Rightarrow> world \<Rightarrow> (exn + Response) \<times> world" where
  "GET_try PAGINATION_PAGE_SIZE pf status' page' w =
     (case ensureRequestsCollection w of
        (Inl e, w1) \<Rightarrow> (Inl e, w1)
      | (Inr u1, w1) \<Rightarrow>
          (case getDb w1 of
             Inl e \<Rightarrow> (Inl e, w1)
           | Inr db \<Rightarrow>
               (let query = (if status' \<noteq> None \<and> status' \<noteq> Some [] then status' else None);
                    skip = multiply (minus1 page') PAGINATION_PAGE_SIZE
                in case countDocuments query w1 of
                     (matching, w2) \<Rightarrow>
                       (case findSorted pf query skip PAGINATION_PAGE_SIZE w2 of
                          (Inl e, w3) \<Rightarrow> (Inl e, w3)
                        | (Inr ds, w3) \<Rightarrow>
                            (Inr (Response 200
                               (Listing (map (toItem pf) ds)
                                  \<lparr>page = page', pageSize = PAGINATION_PAGE_SIZE,
                                   totalPages =
                                     max 1 (nat \<lceil>real matching / real PAGINATION_PAGE_SIZE\<rceil>),
                                   totalCount = matching\<rparr>)), w3)))))"

definition GET :: "nat \<Rightarrow> platform \<Rightarrow> Request \<Rightarrow> world \<Rightarrow> Response \<times> world" where
  "GET PAGINATION_PAGE_SIZE pf request w =
     (let status' = get request (js ''status'');
          page' = parseInt (case get request (js ''page'') of
                              None \<Rightarrow> js ''1''
                            | Some s \<Rightarrow> if s = [] then js ''1'' else s)
      in if page' = NaN \<or> lessThan1 page' then (Built INVALID_INPUT, w)
         else if status' \<noteq> None \<and> status' \<noteq> Some [] \<and>
                 strOfParam status' \<notin> set ALLOWED_STATUSES
         then (Built INVALID_INPUT, w)
         else
           (case GET_try PAGINATION_PAGE_SIZE pf status' page' w of
              (Inr response, w') \<Rightarrow> (response, w')
            | (Inl e, w') \<Rightarrow> (Built UNKNOWN_ERROR, w')))"

section \<open>Concrete platforms and states\<close>

text \<open>
  Two platforms to run the handlers on. \<open>driver6\<close> is the \<^verbatim>\<open>mongodb\<close> package from
  version 6 on: an identifier is valid when it is 24 hexadecimal digits, which
  \<^verbatim>\<open>new ObjectId\<close> reads as 12 bytes and \<^verbatim>\<open>toString\<close> prints in lower case, and
  \<^verbatim>\<open>findOneAndUpdate\<close> resolves to the document. \<open>driver5\<close> is version 5: a string of
  12 characters of one byte each is a valid identifier too, its bytes, and
  \<^verbatim>\<open>findOneAndUpdate\<close> resolves to a \<^verbatim>\<open>ModifyResult\<close>. Both take as \<^verbatim>\<open>skip\<close> what a
  64-bit integer holds.
\<close>

definition hexValue :: "16 word \<Rightarrow> nat option" where
  "hexValue u =
     (if 0x30 \<le> u \<and> u \<le> 0x39 then Some (unat u - 48)
      else if 0x61 \<le> u \<and> u \<le> 0x66 then Some (unat u - 87)
      else if 0x41 \<le> u \<and> u \<le> 0x46 then Some (unat u - 55)
      else None)"

definition isHex24 :: "jsstring \<Rightarrow> bool" where
  "isHex24 s = (length s = 24 \<and> list_all (\<lambda>u. hexValue u \<noteq> None) s)"

definition fromHex :: "jsstring \<Rightarrow> ObjectId" where
  "fromHex s = foldl (\<lambda>a u. 16 * a + of_nat (case hexValue u of None \<Rightarrow> 0 | Some v \<Rightarrow> v)) 0 s"

definition hexDigit :: "nat \<Rightarrow> 16 word" where
  "hexDigit v = (if v < 10 then of_nat (48 + v) else of_nat (87 + v))"

definition toHex :: "ObjectId \<Rightarrow> jsstring" where
  "toHex x = map (\<lambda>k. hexDigit (unat (x div 16 ^ k) mod 16)) (rev [0..<24])"

definition is12Bytes :: "jsstring \<Rightarrow> bool" where
  "is12Bytes s = (length s = 12 \<and> list_all (\<lambda>u. u < 0x80) s)"

definition fromBytes :: "jsstring \<Rightarrow> ObjectId" where
  "fromBytes s = foldl (\<lambda>a u. 256 * a + of_nat (unat u)) 0 s"

definition int64Skip :: "number \<Rightarrow> bool" where
  "int64Skip x = (case x of Num k \<Rightarrow> 0 \<le> k \<and> k < 2 ^ 63 | NaN \<Rightarrow> False
                  | Infinity \<Rightarrow> False | MinusInfinity \<Rightarrow> False)"

definition driver6 :: platform where
  "driver6 = \<lparr>isValid = isHex24, newObjectId = fromHex, toString = toHex,
              includeResultMetadata = False, acceptsSkip = int64Skip\<rparr>"

definition driver5 :: platform where
  "driver5 = \<lparr>isValid = (\<lambda>s. is12Bytes s \<or> isHex24 s),
              newObjectId = (\<lambda>s. if length s = 12 then fromBytes s else fromHex s),
              toString = toHex,
              includeResultMetadata = True, acceptsSkip = int64Skip\<rparr>"

definition emptyDb :: world where
  "emptyDb = \<lparr>reachable = True, requests = None, calls = []\<rparr>"

definition ada :: RequestDocument where
  "ada = \<lparr>requestorName = js ''Ada Lovelace'', itemRequested = js ''pencils'',
          createdDate = 1000, lastEditedDate = 1000, status = js ''pending'',
          oid = 0x65F0A1B2C3D4E5F601234567\<rparr>"

definition bob :: RequestDocument where
  "bob = \<lparr>requestorName = js ''Bob'', itemRequested = js ''ink'',
          createdDate = 2000, lastEditedDate = 2500, status = js ''approved'',
          oid = 0x65F0A1B2C3D4E5F601234568\<rparr>"

definition office :: world where
  "office = \<lparr>reachable = True,
             requests = Some \<lparr>validator = Some requestsSchema, documents = [ada, bob]\<rparr>,
             calls = []\<rparr>"

definition jsonRequest :: "(string \<times> json) list \<Rightarrow> Request" where
  "jsonRequest members = \<lparr>json = Some (JObj (map (\<lambda>kv. (js (fst kv), snd kv)) members)),
                   searchParams = []\<rparr>"

definition listRequest :: "(string \<times> string) list \<Rightarrow> Request" where
  "listRequest params = \<lparr>json = None, searchParams = map (\<lambda>kv. (js (fst kv), js (snd kv))) params\<rparr>"

definition carolRequest :: Request where
  "carolRequest =
     jsonRequest [(''requestorName'', JStr (js ''Carol'')),
                  (''itemRequested'', JStr (js ''paper'')),
                  (''status'', JStr (js ''approved'')),
                  (''createdDate'', JNum 1),
                  (''lastEditedDate'', JNum 2)]"

definition carol :: RequestDocument where
  "carol = \<lparr>requestorName = js ''Carol'', itemRequested = js ''paper'',
            createdDate = 5, lastEditedDate = 5, status = js ''pending'', oid = 7\<rparr>"

text \<open>\<^verbatim>\<open>ensureRequestsCollection\<close> called \<open>n\<close> times in sequence.\<close>

fun ensureTimes :: "nat \<Rightarrow> world \<Rightarrow> world" where
  "ensureTimes 0 w = w"
| "ensureTimes (Suc n) w = ensureTimes n (snd (ensureRequestsCollection w))"

definition approveAda :: Request where
  "approveAda =
     jsonRequest [(''id'', JStr (js ''65f0a1b2c3d4e5f601234567'')),
                  (''status'', JStr (js ''approved''))]"

definition officeApproved :: world where
  "officeApproved =
     \<lparr>reachable = True,
      requests = Some \<lparr>validator = Some requestsSchema,
                       documents = [ada\<lparr>status := js ''approved'', lastEditedDate := 5\<rparr>, bob]\<rparr>,
      calls = [ListCollections, FindOneAndUpdate]\<rparr>"

text \<open>The name \<^verbatim>\<open>"a"\<close> followed by U+1F600, a character outside the Basic Multilingual Plane.\<close>

definition astralName :: jsstring where
  "astralName = [0x61, 0xD83D, 0xDE00]"

definition astralRequest :: Request where
  "astralRequest =
     jsonRequest [(''requestorName'', JStr astralName), (''itemRequested'', JStr (js ''ok''))]"

definition astralDoc :: RequestDocument where
  "astralDoc = \<lparr>requestorName = astralName, itemRequested = js ''ok'',
                createdDate = 5, lastEditedDate = 5, status = js ''pending'', oid = 7\<rparr>"

text \<open>A database whose collection was created elsewhere, without a validator.\<close>

definition unvalidated :: world where
  "unvalidated = \<lparr>reachable = True,
                  requests = Some \<lparr>validator = None, documents = []\<rparr>,
                  calls = []\<rparr>"

section \<open>Strings\<close>

lemma of_char_small: "(of_char c :: nat) < 2 ^ 16"
proof -
  have "(of_char c :: nat) < 256" by (rule nat_of_char_less_256)
  also have "(256::nat) < 2 ^ 16" by simp
  finally show ?thesis .
qed

lemma js_inject: "js a = js b \<longleftrightarrow> a = b"
proof -
  have inj: "inj (of_char :: char \<Rightarrow> 16 word)"
  proof (rule injI)
    fix c d :: char
    assume "(of_char c :: 16 word) = of_char d"
    then have "(word_of_nat (of_char c) :: 16 word) = word_of_nat (of_char d)"
      by (simp add: of_nat_of_char)
    then have "take_bit 16 (of_char c :: nat) = take_bit 16 (of_char d :: nat)"
      by (simp add: word_of_nat_eq_iff)
    then have "(of_char c :: nat) = of_char d"
      using of_char_small [of c] of_char_small [of d] by (simp add: take_bit_nat_eq_self)
    then show "c = d" by simp
  qed
  show ?thesis unfolding js_def using inj by (simp add: inj_map_eq_map)
qed

lemma length_js: "length (js s) = length s"
  by (simp add: js_def)

lemma js_Nil: "js s = [] \<longleftrightarrow> s = []"
  by (simp add: js_def)

lemma not_high_of_char: "\<not> isHighSurrogate (of_char c)"
proof -
  have small: "(of_char c :: nat) < 256" by (rule nat_of_char_less_256)
  then have "(of_char c :: nat) < 65536" by linarith
  then have "(of_char c :: nat) mod 65536 = of_char c" by (rule mod_less)
  moreover from small have "(of_char c :: nat) < 55296" by linarith
  ultimately have "(of_nat (of_char c :: nat) :: 16 word) < 0xD800"
    by (simp add: word_less_nat_alt unat_of_nat)
  then have "\<not> (0xD800 \<le> (of_nat (of_char c :: nat) :: 16 word))" by (simp only: not_le)
  then show ?thesis by (simp add: isHighSurrogate_def of_nat_of_char)
qed

lemma codePoints_le: "codePoints s \<le> length s"
  by (induction s rule: codePoints.induct) auto

lemma codePoints_no_high:
  "list_all (\<lambda>u. \<not> isHighSurrogate u) s \<Longrightarrow> codePoints s = length s"
  by (induction s rule: codePoints.induct) auto

lemma codePoints_js: "codePoints (js s) = length s"
proof -
  have "list_all (\<lambda>u. \<not> isHighSurrogate u) (js s)"
    by (simp add: js_def list_all_iff not_high_of_char)
  then show ?thesis by (simp add: codePoints_no_high length_js)
qed

section \<open>Numbers\<close>

lemma bits_less: "n < 2 ^ bits n"
proof (induction n rule: bits.induct)
  case (1 n)
  show ?case
  proof (cases "n = 0")
    case True
    then show ?thesis by (simp add: bits.simps)
  next
    case False
    with 1 have "n div 2 < 2 ^ bits (n div 2)" by simp
    then have "n < 2 * 2 ^ bits (n div 2)" by linarith
    with False show ?thesis by (subst bits.simps) simp
  qed
qed

lemma bits_le: "n < 2 ^ k \<Longrightarrow> bits n \<le> k"
proof (induction n arbitrary: k rule: bits.induct)
  case (1 n)
  show ?case
  proof (cases "n = 0")
    case True
    then show ?thesis by (simp add: bits.simps)
  next
    case False
    with "1.prems" obtain j where k: "k = Suc j" by (cases k) auto
    with "1.prems" have "n div 2 < 2 ^ j" by simp
    from "1.IH" [OF False this] False k show ?thesis by (subst bits.simps) simp
  qed
qed

lemma bits_ge: "0 < n \<Longrightarrow> 2 ^ (bits n - 1) \<le> n"
proof (induction n rule: bits.induct)
  case (1 n)
  show ?case
  proof (cases "n div 2 = 0")
    case True
    with "1.prems" have "bits n = 1" by (subst bits.simps) (simp add: bits.simps)
    with "1.prems" show ?thesis by simp
  next
    case False
    with 1 have ih: "2 ^ (bits (n div 2) - 1) \<le> n div 2" by simp
    from False have "0 < bits (n div 2)" by (subst bits.simps) simp
    then have "bits n - 1 = Suc (bits (n div 2) - 1)" using "1.prems" by (subst bits.simps) simp
    with ih show ?thesis by simp
  qed
qed

lemma roundNat_small: "m < 2 ^ 53 \<Longrightarrow> roundNat m = m"
  by (simp add: roundNat_def bits_le)

lemma roundNat_big:
  assumes "2 ^ 53 \<le> m"
  shows "2 ^ 53 \<le> roundNat m"
proof (cases "bits m \<le> 53")
  case True
  with assms show ?thesis by (simp add: roundNat_def)
next
  case False
  define e where "e = bits m - 53"
  define q where "q = m div 2 ^ e"
  from False have b: "bits m - 1 = 52 + e" by (simp add: e_def)
  from assms have "0 < m" by (simp add: order_less_le_trans [of 0 "2 ^ 53"])
  from bits_ge [OF this] b have "2 ^ 52 * 2 ^ e \<le> m" by (simp add: power_add)
  then have "2 ^ 52 \<le> q" unfolding q_def by (simp add: less_eq_div_iff_mult_less_eq)
  then have "2 ^ 52 * 2 ^ e \<le> q * 2 ^ e" by simp
  moreover from False have "0 < e" by (simp add: e_def)
  then have "(2::nat) ^ 53 \<le> 2 ^ 52 * 2 ^ e"
    by (cases e) simp_all
  ultimately have q: "2 ^ 53 \<le> q * 2 ^ e" by linarith
  then have "2 ^ 53 \<le> (q + 1) * 2 ^ e" by (simp add: algebra_simps)
  with q False show ?thesis by (simp add: roundNat_def Let_def e_def [symmetric] q_def [symmetric])
qed

lemma toNumber_small: "0 \<le> i \<Longrightarrow> i < 2 ^ 53 \<Longrightarrow> toNumber i = Num i"
proof -
  assume a: "0 \<le> i" "i < 2 ^ 53"
  then have "nat \<bar>i\<bar> < 2 ^ 53" by (simp add: nat_less_iff)
  then have r: "roundNat (nat \<bar>i\<bar>) = nat \<bar>i\<bar>" by (rule roundNat_small)
  have "(2::nat) ^ 53 < 2 ^ 1024" by simp
  with \<open>nat \<bar>i\<bar> < 2 ^ 53\<close> have "\<not> 2 ^ 1024 \<le> nat \<bar>i\<bar>" by linarith
  with r a show ?thesis by (simp add: toNumber_def)
qed

lemma toNumber_big:
  assumes "2 ^ 53 \<le> i"
  shows "toNumber i = Infinity \<or> (\<exists>k. toNumber i = Num k \<and> 2 ^ 53 \<le> k)"
proof -
  from assms have p: "0 \<le> i" "\<not> i < 0" by simp_all
  from assms have "2 ^ 53 \<le> nat \<bar>i\<bar>" by (simp add: le_nat_iff)
  from roundNat_big [OF this] have "(2::int) ^ 53 \<le> int (roundNat (nat \<bar>i\<bar>))"
    by (metis of_nat_le_iff of_nat_numeral of_nat_power)
  with p show ?thesis by (simp add: toNumber_def)
qed

lemma toNumber_neg: "i < 1 \<Longrightarrow> toNumber i = MinusInfinity \<or> (\<exists>k. toNumber i = Num k \<and> k < 1)"
  by (cases "i < 0") (auto simp: toNumber_def roundNat_small)

lemma toNumber_pos: "1 \<le> i \<Longrightarrow> toNumber i = Infinity \<or> (\<exists>k. toNumber i = Num k \<and> 1 \<le> k)"
  using toNumber_small [of i] toNumber_big [of i]
  by (cases "i < 2 ^ 53") fastforce+

lemma bits_example: "bits 9007199254740993 = 54"
  by (simp add: bits.simps)

lemma rounding_example: "toNumber 9007199254740993 = Num 9007199254740992"
  by (simp add: toNumber_def roundNat_def bits_example)

lemma toNumber_exact: "\<bar>i\<bar> < 2 ^ 53 \<Longrightarrow> toNumber i = Num i"
proof -
  assume a: "\<bar>i\<bar> < 2 ^ 53"
  define m where "m = nat \<bar>i\<bar>"
  from a have small: "m < 2 ^ 53" by (simp add: m_def nat_less_iff)
  then have r: "roundNat m = m" by (rule roundNat_small)
  have "(2::nat) ^ 53 < 2 ^ 1024" by simp
  with small have "\<not> 2 ^ 1024 \<le> m" by linarith
  have "toNumber i =
     (if 2 ^ 1024 \<le> roundNat m then (if i < 0 then MinusInfinity else Infinity)
      else if i < 0 then Num (- int (roundNat m)) else Num (int (roundNat m)))"
    unfolding toNumber_def m_def by (rule refl)
  with r \<open>\<not> 2 ^ 1024 \<le> m\<close> have "toNumber i = (if i < 0 then Num (- int m) else Num (int m))"
    by (simp only: if_False)
  then show ?thesis by (simp add: m_def)
qed

lemma page_cases:
  "x \<noteq> NaN \<Longrightarrow> \<not> lessThan1 x \<Longrightarrow> x = Infinity \<or> (\<exists>p. x = Num p \<and> 1 \<le> p)"
  by (cases x) auto

lemma skip_exact:
  assumes "1 \<le> p" and "0 < n" and "length xs < 2 ^ 53"
  shows "skipped (multiply (minus1 (Num p)) n) xs = drop (nat (p - 1) * n) xs"
proof (cases "(p - 1) * int n < 2 ^ 53")
  case True
  from assms(2) have "1 \<le> int n" by simp
  with assms(1) have "(p - 1) * 1 \<le> (p - 1) * int n" by (intro mult_left_mono) simp_all
  with True assms(1) have "0 \<le> p - 1" "p - 1 < 2 ^ 53" by simp_all
  then have "minus1 (Num p) = Num (p - 1)" by (simp add: toNumber_small)
  moreover from assms(1) True have "toNumber ((p - 1) * int n) = Num ((p - 1) * int n)"
    by (intro toNumber_small) simp_all
  ultimately show ?thesis using assms(1) by (simp add: nat_mult_distrib)
next
  case False
  then have big: "2 ^ 53 \<le> (p - 1) * int n" by simp
  with assms(1) have "(2::int) ^ 53 \<le> int (nat (p - 1) * n)" by simp
  then have "(2::nat) ^ 53 \<le> nat (p - 1) * n"
    by (metis of_nat_le_iff of_nat_numeral of_nat_power)
  with assms(3) have "length xs \<le> nat (p - 1) * n" by linarith
  then have right: "drop (nat (p - 1) * n) xs = []" by simp
  have far: "\<And>k. 2 ^ 53 \<le> k \<Longrightarrow> drop (nat k) xs = []"
  proof -
    fix k :: int
    assume "2 ^ 53 \<le> k"
    then have "(2::nat) ^ 53 \<le> nat k" by (simp add: le_nat_iff)
    with assms(3) have "length xs \<le> nat k" by linarith
    then show "drop (nat k) xs = []" by simp
  qed
  have product: "\<And>k. 2 ^ 53 \<le> k * int n \<Longrightarrow> skipped (multiply (Num k) n) xs = []"
  proof -
    fix k :: int
    assume "2 ^ 53 \<le> k * int n"
    from toNumber_big [OF this] show "skipped (multiply (Num k) n) xs = []" by (auto simp: far)
  qed
  have "skipped (multiply (minus1 (Num p)) n) xs = []"
  proof (cases "p - 1 < 2 ^ 53")
    case True
    with assms(1) have "minus1 (Num p) = Num (p - 1)" by (simp add: toNumber_small)
    with product [OF big] show ?thesis by simp
  next
    case False
    then have p: "2 ^ 53 \<le> p - 1" by simp
    from toNumber_big [OF p] show ?thesis
    proof
      assume "toNumber (p - 1) = Infinity"
      with assms(2) show ?thesis by simp
    next
      assume "\<exists>k. toNumber (p - 1) = Num k \<and> 2 ^ 53 \<le> k"
      then obtain k where k: "toNumber (p - 1) = Num k" "2 ^ 53 \<le> k" by blast
      from assms(2) have "1 \<le> int n" by simp
      with k(2) have "k * 1 \<le> k * int n" by (intro mult_left_mono) simp_all
      then have "k \<le> k * int n" by (simp only: mult_1_right)
      with k(2) have "2 ^ 53 \<le> k * int n" by linarith
      from product [OF this] k(1) show ?thesis by simp
    qed
  qed
  with right show ?thesis by simp
qed

lemma parseInt_examples:
  "parseInt (js ''abc'') = NaN" "parseInt (js ''0'') = Num 0" "parseInt (js '' -3'') = Num (- 3)"
  "parseInt (js ''5'') = Num 5" "parseInt (js ''2abc'') = Num 2" "parseInt (js ''1'') = Num 1"
  "parseInt (js ''2'') = Num 2"
  by (simp_all add: parseInt_def js_def isWhiteSpace_def isDigit_def decimal_def toNumber_exact)

lemma parseInt_rounds: "parseInt (js ''9007199254740993'') = Num 9007199254740992"
  by (simp add: parseInt_def js_def isWhiteSpace_def isDigit_def decimal_def rounding_example)

section \<open>Ensuring the collection\<close>

lemma ensure_unreachable:
  "\<not> reachable w \<Longrightarrow> ensureRequestsCollection w = (Inl MongoError, w)"
  by (simp add: ensureRequestsCollection_def getDb_def)

lemma ensure_existing:
  "reachable w \<Longrightarrow> requests w = Some c \<Longrightarrow>
   ensureRequestsCollection w = (Inr (), w\<lparr>calls := calls w @ [ListCollections]\<rparr>)"
  by (simp add: ensureRequestsCollection_def getDb_def listCollections_def)

lemma ensure_missing:
  "reachable w \<Longrightarrow> requests w = None \<Longrightarrow>
   ensureRequestsCollection w =
     (Inr (), w\<lparr>requests := Some \<lparr>validator = Some requestsSchema, documents = []\<rparr>,
               calls := calls w @ [ListCollections, CreateCollection]\<rparr>)"
  by (simp add: ensureRequestsCollection_def getDb_def listCollections_def createCollection_def)

lemma ensure_cases:
  "ensureRequestsCollection w = (r, w') \<Longrightarrow>
     (\<not> reachable w \<and> r = Inl MongoError \<and> w' = w) \<or>
     (reachable w \<and> r = Inr () \<and> reachable w' \<and> docs w' = docs w \<and> requests w' \<noteq> None
        \<and> (requests w \<noteq> None \<longrightarrow> requests w' = requests w))"
  by (cases "reachable w"; cases "requests w")
     (auto simp: ensure_unreachable ensure_existing ensure_missing docs_def)

lemma ensure_Inl:
  "ensureRequestsCollection w = (Inl e, w') \<Longrightarrow> w' = w \<and> \<not> reachable w"
  by (drule ensure_cases) auto

lemma ensure_Inr:
  "ensureRequestsCollection w = (Inr u, w') \<Longrightarrow>
     reachable w \<and> reachable w' \<and> docs w' = docs w \<and> requests w' \<noteq> None"
  by (drule ensure_cases) auto

lemma ensure_docs: "docs (snd (ensureRequestsCollection w)) = docs w"
  by (cases "ensureRequestsCollection w") (auto dest: ensure_cases)

lemma ensure_requests_after:
  "requests w \<noteq> None \<Longrightarrow> requests (snd (ensureRequestsCollection w)) = requests w"
  by (cases "reachable w") (auto simp: ensure_unreachable ensure_existing)

lemma ensure_reachable_after:
  "reachable (snd (ensureRequestsCollection w)) = reachable w"
  by (cases "reachable w"; cases "requests w")
     (auto simp: ensure_unreachable ensure_existing ensure_missing)

lemma ensure_created_after:
  "reachable w \<Longrightarrow> requests (snd (ensureRequestsCollection w)) \<noteq> None"
  by (cases "requests w") (auto simp: ensure_existing ensure_missing)

lemma ensure_creates_once:
  "count_list (calls (snd (ensureRequestsCollection w))) CreateCollection =
     count_list (calls w) CreateCollection + (if reachable w \<and> requests w = None then 1 else 0)"
  by (cases "reachable w"; cases "requests w")
     (auto simp: ensure_unreachable ensure_existing ensure_missing)

lemma ensureTimes_existing:
  "requests w \<noteq> None \<or> \<not> reachable w \<Longrightarrow>
   count_list (calls (ensureTimes n w)) CreateCollection = count_list (calls w) CreateCollection
   \<and> requests (ensureTimes n w) = requests w"
proof (induction n arbitrary: w)
  case 0
  then show ?case by simp
next
  case (Suc n)
  let ?w1 = "snd (ensureRequestsCollection w)"
  from Suc.prems have k: "requests ?w1 = requests w" "reachable ?w1 = reachable w"
    by (auto simp: ensure_requests_after ensure_reachable_after ensure_unreachable)
  with Suc.prems have "requests ?w1 \<noteq> None \<or> \<not> reachable ?w1" by simp
  from Suc.IH [OF this] k Suc.prems show ?case by (auto simp: ensure_creates_once)
qed

text \<open>
  C8. When the collection exists, \<^verbatim>\<open>ensureRequestsCollection\<close> either fails to reach the
  server and changes nothing, or lists the collections and returns: it issues no
  \<^verbatim>\<open>createCollection\<close> and the collection is as before. Called twice in sequence it leaves
  the collection the first call left, and however often it is called in sequence,
  \<^verbatim>\<open>createCollection\<close> is issued at most once.
\<close>

theorem ensure_idempotent:
  "(requests w \<noteq> None \<longrightarrow>
      ensureRequestsCollection w = (Inr (), w\<lparr>calls := calls w @ [ListCollections]\<rparr>) \<or>
      ensureRequestsCollection w = (Inl MongoError, w)) \<and>
   requests (snd (ensureRequestsCollection (snd (ensureRequestsCollection w)))) =
     requests (snd (ensureRequestsCollection w)) \<and>
   count_list (calls (ensureTimes n w)) CreateCollection \<le> count_list (calls w) CreateCollection + 1"
proof (intro conjI impI)
  assume "requests w \<noteq> None"
  then show "ensureRequestsCollection w = (Inr (), w\<lparr>calls := calls w @ [ListCollections]\<rparr>) \<or>
      ensureRequestsCollection w = (Inl MongoError, w)"
    by (cases "reachable w") (auto simp: ensure_existing ensure_unreachable)
next
  show "requests (snd (ensureRequestsCollection (snd (ensureRequestsCollection w)))) =
     requests (snd (ensureRequestsCollection w))"
  proof (cases "reachable w")
    case True
    then show ?thesis by (simp add: ensure_requests_after ensure_created_after)
  next
    case False
    then show ?thesis by (simp add: ensure_unreachable)
  qed
next
  show "count_list (calls (ensureTimes n w)) CreateCollection \<le> count_list (calls w) CreateCollection + 1"
  proof (cases n)
    case 0
    then show ?thesis by simp
  next
    case (Suc m)
    let ?w1 = "snd (ensureRequestsCollection w)"
    have "requests ?w1 \<noteq> None \<or> \<not> reachable ?w1"
      by (cases "reachable w") (auto simp: ensure_created_after ensure_unreachable)
    from ensureTimes_existing [OF this, of m] Suc show ?thesis by (simp add: ensure_creates_once)
  qed
qed

theorem ensure_idempotent_witness:
  "requests office \<noteq> None \<and>
   ensureRequestsCollection office = (Inr (), office\<lparr>calls := calls office @ [ListCollections]\<rparr>) \<and>
   requests (snd (ensureRequestsCollection (snd (ensureRequestsCollection emptyDb)))) =
     Some \<lparr>validator = Some requestsSchema, documents = []\<rparr> \<and>
   count_list (calls (ensureTimes 3 emptyDb)) CreateCollection = 1"
proof -
  have a: "requests office \<noteq> None" "ensureRequestsCollection office \<noteq> (Inl MongoError, office)"
    by (simp_all add: office_def ensure_existing)
  have b: "requests (snd (ensureRequestsCollection emptyDb)) =
     Some \<lparr>validator = Some requestsSchema, documents = []\<rparr>"
    by (simp add: ensure_missing emptyDb_def)
  have c: "count_list (calls (ensureTimes 3 emptyDb)) CreateCollection \<ge> 1"
    by (simp add: numeral_3_eq_3 ensure_missing ensure_existing emptyDb_def)
  from ensure_idempotent [of office 0] ensure_idempotent [of emptyDb 3] a b c show ?thesis
    by (simp add: emptyDb_def)
qed

section \<open>Creating a request\<close>

lemma PUT_invalid_body:
  "json request = Some body \<Longrightarrow> validateCreateBody body = Inl e \<Longrightarrow>
   PUT now newId request w = (Built INVALID_INPUT, w)"
  by (auto simp: PUT_def PUT_try_def validateCreateBody_def split: if_splits)

text \<open>
  C1. A create request whose body has a \<^verbatim>\<open>requestorName\<close> of length below 3 or above 30,
  or an \<^verbatim>\<open>itemRequested\<close> of length below 2 or above 100 (lengths as \<^verbatim>\<open>.length\<close> counts
  them), is answered with the input-validation error, and the state is the one before:
  no driver call is issued, nothing is inserted, the collection is unchanged.
\<close>

theorem PUT_rejects_bad_lengths:
  assumes "json request = Some body"
    and "(\<exists>n. property body (js ''requestorName'') = Some (JStr n) \<and> (length n < 3 \<or> 30 < length n))
       \<or> (\<exists>i. property body (js ''itemRequested'') = Some (JStr i) \<and> (length i < 2 \<or> 100 < length i))"
  shows "PUT now newId request w = (Built INVALID_INPUT, w)"
proof -
  from assms(2) have "validateCreateBody body = Inl (InvalidInputError ''Invalid request body'')"
    by (auto simp: validateCreateBody_def)
  with assms(1) show ?thesis by (rule PUT_invalid_body)
qed

theorem PUT_rejects_bad_lengths_witness:
  "json (jsonRequest [(''requestorName'', JStr (js ''Al'')), (''itemRequested'', JStr (js ''paper''))])
     = Some (JObj [(js ''requestorName'', JStr (js ''Al'')), (js ''itemRequested'', JStr (js ''paper''))]) \<and>
   property (JObj [(js ''requestorName'', JStr (js ''Al'')), (js ''itemRequested'', JStr (js ''paper''))])
     (js ''requestorName'') = Some (JStr (js ''Al'')) \<and>
   length (js ''Al'') < 3 \<and>
   PUT 5 7 (jsonRequest [(''requestorName'', JStr (js ''Al'')), (''itemRequested'', JStr (js ''paper''))])
     office = (Built INVALID_INPUT, office)"
proof -
  let ?b = "JObj [(js ''requestorName'', JStr (js ''Al'')), (js ''itemRequested'', JStr (js ''paper''))]"
  let ?r = "jsonRequest [(''requestorName'', JStr (js ''Al'')), (''itemRequested'', JStr (js ''paper''))]"
  have j: "json ?r = Some ?b" by (simp add: jsonRequest_def)
  have p: "property ?b (js ''requestorName'') = Some (JStr (js ''Al''))" by (simp add: js_inject)
  have l: "length (js ''Al'') < 3" by (simp add: length_js)
  from p l have h: "(\<exists>n. property ?b (js ''requestorName'') = Some (JStr n) \<and> (length n < 3 \<or> 30 < length n))
       \<or> (\<exists>i. property ?b (js ''itemRequested'') = Some (JStr i) \<and> (length i < 2 \<or> 100 < length i))"
    by blast
  from PUT_rejects_bad_lengths [OF j h, of 5 7 office] j p l show ?thesis by simp
qed

lemma insertOne_cases:
  "insertOne newId doc w = (r, w') \<Longrightarrow>
     (r = Inl MongoError \<and> docs w' = docs w) \<or>
     (r = Inr newId \<and> docs w' = docs w @ [withId doc newId])"
  by (auto simp: insertOne_def docs_def Let_def split: option.splits if_splits)

lemma PUT_try_docs:
  assumes "PUT_try now newId request w = (r, w')"
  shows "docs w' = docs w \<or>
         (\<exists>d. docs w' = docs w @ [d] \<and> status d = js ''pending'' \<and> createdDate d = now \<and>
              lastEditedDate d = now \<and> oid d = newId \<and> r = Inr (Response 201 (Created d)))"
proof (cases "json request")
  case None
  with assms show ?thesis by (simp add: PUT_try_def)
next
  case (Some body)
  show ?thesis
  proof (cases "validateCreateBody body")
    case (Inl e)
    with Some assms show ?thesis by (simp add: PUT_try_def)
  next
    case (Inr u)
    obtain r1 w1 where e: "ensureRequestsCollection w = (r1, w1)" by (cases "ensureRequestsCollection w")
    show ?thesis
    proof (cases r1)
      case (Inl x)
      with e Some Inr assms ensure_Inl [of w x w1] show ?thesis by (simp add: PUT_try_def)
    next
      case r1: (Inr u1)
      from e r1 ensure_Inr [of w u1 w1] have w1: "reachable w1" "docs w1 = docs w" by simp_all
      define doc where "doc = \<lparr>requestorName = strOf (property body (js ''requestorName'')),
                                     itemRequested = strOf (property body (js ''itemRequested'')),
                                     createdDate = now,
                                     lastEditedDate = now,
                                     status = js ''pending''\<rparr>"
      obtain r2 w2 where i: "insertOne newId doc w1 = (r2, w2)" by (cases "insertOne newId doc w1")
      from e r1 Some Inr assms w1 i have res:
        "(case r2 of Inl e \<Rightarrow> (Inl e, w2)
          | Inr insertedId \<Rightarrow> (Inr (Response 201 (Created (withId doc insertedId))), w2)) = (r, w')"
        by (simp add: PUT_try_def getDb_def doc_def [symmetric] split: sum.splits)
      from insertOne_cases [OF i] show ?thesis
      proof
        assume "r2 = Inl MongoError \<and> docs w2 = docs w1"
        with res w1 show ?thesis by auto
      next
        assume "r2 = Inr newId \<and> docs w2 = docs w1 @ [withId doc newId]"
        with res w1 show ?thesis by (auto simp: withId_def doc_def)
      qed
    qed
  qed
qed

text \<open>
  C3. Whatever the body holds, when \<^verbatim>\<open>PUT\<close> changes the documents of the collection it
  has appended exactly one record, the one of its 201 response, whose status is
  \<^verbatim>\<open>"pending"\<close> and whose creation and edit timestamps are equal.
\<close>

theorem PUT_inserts_pending:
  assumes "PUT now newId request w = (response, w')" and "docs w' \<noteq> docs w"
  shows "\<exists>d. docs w' = docs w @ [d] \<and> status d = js ''pending'' \<and>
             createdDate d = lastEditedDate d \<and> response = Response 201 (Created d)"
proof -
  obtain r w1 where t: "PUT_try now newId request w = (r, w1)" by (cases "PUT_try now newId request w")
  with assms(1) have "w1 = w'" by (auto simp: PUT_def split: sum.splits if_splits)
  with PUT_try_docs [OF t] assms(2) obtain d where
    d: "docs w' = docs w @ [d]" "status d = js ''pending''" "createdDate d = now" "lastEditedDate d = now"
       "r = Inr (Response 201 (Created d))" by auto
  with t assms(1) have "response = Response 201 (Created d)" by (simp add: PUT_def)
  with d show ?thesis by auto
qed

lemma carol_inserted:
  "PUT 5 7 carolRequest office =
     (Response 201 (Created carol),
      office\<lparr>requests := Some \<lparr>validator = Some requestsSchema, documents = [ada, bob, carol]\<rparr>,
             calls := [ListCollections, InsertOne]\<rparr>)"
  by (simp add: PUT_def PUT_try_def carolRequest_def jsonRequest_def validateCreateBody_def js_inject
      length_js ensure_existing office_def getDb_def insertOne_def rejects_def matchesSchema_def
      requestsSchema_def anything_def matchesProperty_def toBson_def withId_def codePoints_js carol_def
      ada_def bob_def)

theorem PUT_inserts_pending_witness:
  "docs (snd (PUT 5 7 carolRequest office)) \<noteq> docs office \<and>
   (\<exists>d. docs (snd (PUT 5 7 carolRequest office)) = docs office @ [d] \<and>
        status d = js ''pending'' \<and> createdDate d = lastEditedDate d \<and>
        fst (PUT 5 7 carolRequest office) = Response 201 (Created d))"
proof -
  let ?w = "office\<lparr>requests := Some \<lparr>validator = Some requestsSchema, documents = [ada, bob, carol]\<rparr>,
             calls := [ListCollections, InsertOne]\<rparr>"
  have n: "docs ?w \<noteq> docs office" by (simp add: docs_def office_def)
  from PUT_inserts_pending [OF carol_inserted n] n show ?thesis by (simp add: carol_inserted)
qed

section \<open>The boundary check and the validator\<close>

lemma validateCreateBody_Inr:
  "validateCreateBody body = Inr u \<Longrightarrow>
     3 \<le> length (strOf (property body (js ''requestorName''))) \<and>
     length (strOf (property body (js ''requestorName''))) \<le> 30 \<and>
     2 \<le> length (strOf (property body (js ''itemRequested''))) \<and>
     length (strOf (property body (js ''itemRequested''))) \<le> 100"
  by (auto simp: validateCreateBody_def split: if_splits)

lemma PUT_document_matches_schema:
  assumes "validateCreateBody body = Inr ()"
    and "3 \<le> codePoints (strOf (property body (js ''requestorName'')))"
    and "2 \<le> codePoints (strOf (property body (js ''itemRequested'')))"
  shows "matchesSchema requestsSchema
           (toBson (withId \<lparr>requestorName = strOf (property body (js ''requestorName'')),
                            itemRequested = strOf (property body (js ''itemRequested'')),
                            createdDate = now, lastEditedDate = now,
                            status = js ''pending''\<rparr> i))"
proof -
  from validateCreateBody_Inr [OF assms(1)]
    codePoints_le [of "strOf (property body (js ''requestorName''))"]
    codePoints_le [of "strOf (property body (js ''itemRequested''))"]
  have "codePoints (strOf (property body (js ''requestorName''))) \<le> 30"
       "codePoints (strOf (property body (js ''itemRequested''))) \<le> 100" by linarith+
  with assms(2,3) show ?thesis
    by (simp add: matchesSchema_def requestsSchema_def anything_def matchesProperty_def toBson_def
        withId_def)
qed

lemma PUT_document_matches_schema_BMP:
  assumes "validateCreateBody body = Inr ()"
    and "list_all (\<lambda>u. \<not> isHighSurrogate u) (strOf (property body (js ''requestorName'')))"
    and "list_all (\<lambda>u. \<not> isHighSurrogate u) (strOf (property body (js ''itemRequested'')))"
  shows "matchesSchema requestsSchema
           (toBson (withId \<lparr>requestorName = strOf (property body (js ''requestorName'')),
                            itemRequested = strOf (property body (js ''itemRequested'')),
                            createdDate = now, lastEditedDate = now,
                            status = js ''pending''\<rparr> i))"
  using validateCreateBody_Inr [OF assms(1)] assms(2,3)
  by (intro PUT_document_matches_schema assms(1)) (simp_all add: codePoints_no_high)

text \<open>
  C7 fails on a name that has a character outside the Basic Multilingual Plane: \<^verbatim>\<open>.length\<close>
  counts three code units and the boundary check passes, the validator counts two
  characters and rejects the document. Against the collection
  \<^verbatim>\<open>ensureRequestsCollection\<close> creates, \<^verbatim>\<open>PUT\<close> ends with the unknown-error response and
  inserts nothing; against a collection without the validator it inserts a document the
  schema does not admit.
\<close>

theorem PUT_astral_name:
  "length astralName = 3 \<and> codePoints astralName = 2 \<and>
   PUT 5 7 astralRequest emptyDb =
     (Built UNKNOWN_ERROR,
      emptyDb\<lparr>requests := Some \<lparr>validator = Some requestsSchema, documents = []\<rparr>,
              calls := [ListCollections, CreateCollection, InsertOne]\<rparr>) \<and>
   PUT 5 7 astralRequest unvalidated =
     (Response 201 (Created astralDoc),
      unvalidated\<lparr>requests := Some \<lparr>validator = None, documents = [astralDoc]\<rparr>,
                  calls := [ListCollections, InsertOne]\<rparr>) \<and>
   \<not> matchesSchema requestsSchema (toBson astralDoc)"
proof -
  have c: "codePoints astralName = 2" "length astralName = 3"
    by (simp_all add: astralName_def isHighSurrogate_def isLowSurrogate_def)
  have v: "validateCreateBody (JObj [(js ''requestorName'', JStr astralName),
                                     (js ''itemRequested'', JStr (js ''ok''))]) = Inr ()"
    by (simp add: validateCreateBody_def js_inject c length_js)
  have m: "\<not> matchesSchema requestsSchema (toBson astralDoc)"
    by (simp add: matchesSchema_def requestsSchema_def anything_def matchesProperty_def toBson_def
        astralDoc_def c)
  have a: "PUT 5 7 astralRequest emptyDb =
     (Built UNKNOWN_ERROR,
      emptyDb\<lparr>requests := Some \<lparr>validator = Some requestsSchema, documents = []\<rparr>,
              calls := [ListCollections, CreateCollection, InsertOne]\<rparr>)"
    using m
    by (simp add: PUT_def PUT_try_def astralRequest_def jsonRequest_def v js_inject emptyDb_def
        ensure_missing getDb_def insertOne_def rejects_def withId_def astralDoc_def)
  have b: "PUT 5 7 astralRequest unvalidated =
     (Response 201 (Created astralDoc),
      unvalidated\<lparr>requests := Some \<lparr>validator = None, documents = [astralDoc]\<rparr>,
                  calls := [ListCollections, InsertOne]\<rparr>)"
    by (simp add: PUT_def PUT_try_def astralRequest_def jsonRequest_def v js_inject unvalidated_def
        ensure_existing getDb_def insertOne_def rejects_def withId_def astralDoc_def)
  from c a b m show ?thesis by simp
qed

section \<open>Listing requests\<close>

text \<open>
  C6. A list request whose \<^verbatim>\<open>page\<close> parameter is present and not empty, and which
  \<^verbatim>\<open>parseInt\<close> reads as \<^verbatim>\<open>NaN\<close> (invalid: no digit follows the optional white space
  and sign) or as a number below 1 (out of range), is answered with the input-validation
  error, and the state is the one before.
\<close>

theorem GET_rejects_bad_page:
  assumes "get request (js ''page'') = Some s" and "s \<noteq> []"
    and "parseInt s = NaN \<or> parseInt s = MinusInfinity \<or> (\<exists>p. parseInt s = Num p \<and> p < 1)"
  shows "GET n pf request w = (Built INVALID_INPUT, w)"
  using assms by (auto simp: GET_def)

theorem GET_rejects_bad_page_witness:
  "get (listRequest [(''page'', ''abc'')]) (js ''page'') = Some (js ''abc'') \<and> js ''abc'' \<noteq> [] \<and>
   parseInt (js ''abc'') = NaN \<and>
   GET 10 driver6 (listRequest [(''page'', ''abc'')]) office = (Built INVALID_INPUT, office) \<and>
   parseInt (js ''0'') = Num 0 \<and>
   GET 10 driver6 (listRequest [(''page'', ''0'')]) office = (Built INVALID_INPUT, office)"
proof -
  have g: "get (listRequest [(''page'', ''abc'')]) (js ''page'') = Some (js ''abc'')"
          "get (listRequest [(''page'', ''0'')]) (js ''page'') = Some (js ''0'')"
    by (simp_all add: get_def listRequest_def)
  have n: "js ''abc'' \<noteq> []" "js ''0'' \<noteq> []" by (simp_all add: js_def)
  have p: "parseInt (js ''0'') = Num 0 \<and> (0::int) < 1" by (simp add: parseInt_examples)
  from GET_rejects_bad_page [OF g(1) n(1), of 10 driver6 office]
       GET_rejects_bad_page [OF g(2) n(2), of 10 driver6 office] g n p
  show ?thesis by (simp add: parseInt_examples)
qed

lemma docs_calls_update: "docs (w\<lparr>calls := c\<rparr>) = docs w"
  by (simp add: docs_def)

lemma matches_alt: "matches q = (\<lambda>d. q = None \<or> q = Some (status d))"
  by (rule ext) (auto simp: matches_def split: option.splits)

lemma GET_try_unreachable:
  "\<not> reachable w \<Longrightarrow> GET_try n pf st p w = (Inl MongoError, w)"
  by (simp add: GET_try_def ensure_unreachable)

lemma GET_try_reachable:
  assumes "reachable w"
  shows "GET_try n pf st p w =
    ((if acceptsSkip pf (multiply (minus1 p) n)
      then Inr (Response 200
       (Listing
          (map (toItem pf)
             (limit n (skipped (multiply (minus1 p) n)
                (sort_key (\<lambda>d. - createdDate d)
                   (filter (matches (if st = Some [] then None else st)) (docs w))))))
          \<lparr>page = p, pageSize = n,
           totalPages = max 1 (nat \<lceil>real (length (filter (matches (if st = Some [] then None else st)) (docs w))) / real n\<rceil>),
           totalCount = length (filter (matches (if st = Some [] then None else st)) (docs w))\<rparr>))
      else Inl MongoError),
     (snd (ensureRequestsCollection w))
       \<lparr>calls := calls (snd (ensureRequestsCollection w)) @ [CountDocuments, Find]\<rparr>)"
proof -
  obtain r1 w1 where e: "ensureRequestsCollection w = (r1, w1)" by (cases "ensureRequestsCollection w")
  from ensure_cases [OF e] assms have k: "r1 = Inr ()" "reachable w1" "docs w1 = docs w" by auto
  have q: "(if st \<noteq> None \<and> st \<noteq> Some [] then st else None) = (if st = Some [] then None else st)"
    by auto
  show ?thesis
    unfolding GET_try_def e k(1) q
    by (simp add: getDb_def k countDocuments_def findSorted_def docs_calls_update Let_def)
qed

lemma GET_docs: "docs (snd (GET n pf request w)) = docs w"
  by (cases "reachable w")
     (auto simp: GET_def Let_def GET_try_reachable GET_try_unreachable docs_calls_update ensure_docs)

lemma GET_success:
  fixes request :: Request and q pv
  defines "q \<equiv> (if get request (js ''status'') = Some [] then None else get request (js ''status''))"
    and "pv \<equiv> parseInt (case get request (js ''page'') of None \<Rightarrow> js ''1''
                          | Some t \<Rightarrow> if t = [] then js ''1'' else t)"
  assumes "GET n pf request w = (Response c b, w')"
  shows "pv \<noteq> NaN \<and> \<not> lessThan1 pv \<and> c = 200 \<and>
     b = Listing
          (map (toItem pf)
             (limit n (skipped (multiply (minus1 pv) n)
                (sort_key (\<lambda>d. - createdDate d) (filter (matches q) (docs w))))))
          \<lparr>page = pv, pageSize = n,
           totalPages = max 1 (nat \<lceil>real (length (filter (matches q) (docs w))) / real n\<rceil>),
           totalCount = length (filter (matches q) (docs w))\<rparr>"
  using assms(3) unfolding q_def pv_def
  by (cases "reachable w")
     (auto simp: GET_def Let_def GET_try_reachable GET_try_unreachable split: if_splits)

lemma GET_accepts:
  fixes request :: Request and q
  defines "q \<equiv> (if get request (js ''status'') = Some [] then None else get request (js ''status''))"
  assumes "reachable w"
    and "parseInt (case get request (js ''page'') of None \<Rightarrow> js ''1''
                   | Some s \<Rightarrow> if s = [] then js ''1'' else s) = pv"
    and "pv \<noteq> NaN" and "\<not> lessThan1 pv"
    and "q = None \<or> (\<exists>a \<in> set ALLOWED_STATUSES. q = Some a)"
    and "acceptsSkip pf (multiply (minus1 pv) n)"
  shows "fst (GET n pf request w) =
     Response 200
       (Listing
          (map (toItem pf)
             (limit n (skipped (multiply (minus1 pv) n)
                (sort_key (\<lambda>d. - createdDate d) (filter (matches q) (docs w))))))
          \<lparr>page = pv, pageSize = n,
           totalPages = max 1 (nat \<lceil>real (length (filter (matches q) (docs w))) / real n\<rceil>),
           totalCount = length (filter (matches q) (docs w))\<rparr>)"
  using assms(2-) unfolding q_def
  by (auto simp: GET_def Let_def GET_try_reachable split: if_splits)

lemma ceiling_nat_div:
  assumes "0 < (n::nat)"
  shows "nat \<lceil>real c / real n\<rceil> = (c + n - 1) div n"
proof -
  define q where "q = (c + n - 1) div n"
  define r where "r = (c + n - 1) mod n"
  have r: "r < n" using assms by (simp add: r_def)
  have "q * n + r = c + n - 1" by (simp add: q_def r_def)
  with r assms have lo: "c \<le> q * n" and hi: "q * n < c + n" by linarith+
  from lo have "real c \<le> real (q * n)" by (rule of_nat_mono)
  then have up: "real c / real n \<le> of_int (int q)"
    using assms by (simp add: pos_divide_le_eq)
  from hi have "real (q * n) < real (c + n)" by (simp only: of_nat_less_iff)
  then have "(real q - 1) * real n < real c" by (simp add: algebra_simps)
  then have down: "of_int (int q) - 1 < real c / real n"
    using assms by (simp add: pos_less_divide_eq)
  from down up have "\<lceil>real c / real n\<rceil> = int q" by (rule ceiling_unique)
  then show ?thesis by (simp add: q_def)
qed

text \<open>
  C5. In a successful list response the page size is the configured one, the total count
  is the number of records matching the status filter, and the total page count is
  \<^verbatim>\<open>max(1, ceil(totalCount / pageSize))\<close>: the rounded-up quotient, and 1 when nothing
  matches.
\<close>

theorem GET_totalPages:
  fixes request :: Request and q
  defines "q \<equiv> (if get request (js ''status'') = Some [] then None else get request (js ''status''))"
  assumes "0 < n" and "GET n pf request w = (Response 200 (Listing items pg), w')"
  shows "pageSize pg = n \<and> totalCount pg = length (filter (matches q) (docs w)) \<and>
         int (totalPages pg) = max 1 \<lceil>real (totalCount pg) / real (pageSize pg)\<rceil> \<and>
         totalPages pg = max 1 ((totalCount pg + pageSize pg - 1) div pageSize pg) \<and>
         (totalCount pg = 0 \<longrightarrow> totalPages pg = 1)"
proof -
  from GET_success [OF assms(3)] obtain p where
    pg: "pg = \<lparr>page = p, pageSize = n,
           totalPages = max 1 (nat \<lceil>real (length (filter (matches q) (docs w))) / real n\<rceil>),
           totalCount = length (filter (matches q) (docs w))\<rparr>"
    unfolding q_def by auto
  have "(0::real) \<le> real (totalCount pg) / real n" by simp
  with le_of_int_ceiling [of "real (totalCount pg) / real n"]
  have "0 \<le> \<lceil>real (totalCount pg) / real n\<rceil>" by linarith
  then have "int (max 1 (nat \<lceil>real (totalCount pg) / real n\<rceil>)) = max 1 \<lceil>real (totalCount pg) / real n\<rceil>"
    by linarith
  moreover from assms(2) have "(n - Suc 0) div n = 0" by simp
  ultimately show ?thesis using pg by (simp add: ceiling_nat_div [OF assms(2)])
qed

lemma driver6_skip: "0 \<le> k \<Longrightarrow> k < 2 ^ 53 \<Longrightarrow> acceptsSkip driver6 (Num k)"
  by (simp add: driver6_def int64Skip_def)

lemma GET_page2:
  "GET 1 driver6 (listRequest [(''page'', ''2'')]) office =
     (Response 200 (Listing [toItem driver6 ada]
        \<lparr>page = Num 2, pageSize = 1, totalPages = 2, totalCount = 2\<rparr>),
      office\<lparr>calls := [ListCollections, CountDocuments, Find]\<rparr>)"
  by (simp add: GET_def listRequest_def get_def js_inject parseInt_examples ALLOWED_STATUSES_def
        GET_try_reachable office_def ensure_existing docs_def matches_def ada_def bob_def limit_def
        Let_def js_Nil ceiling_nat_div toNumber_exact driver6_skip)

theorem GET_totalPages_witness:
  "GET 1 driver6 (listRequest [(''page'', ''2'')]) office =
     (Response 200 (Listing [toItem driver6 ada]
        \<lparr>page = Num 2, pageSize = 1, totalPages = 2, totalCount = 2\<rparr>),
      office\<lparr>calls := [ListCollections, CountDocuments, Find]\<rparr>) \<and>
   int (totalPages \<lparr>page = Num 2, pageSize = 1, totalPages = 2, totalCount = 2\<rparr>) =
     max 1 \<lceil>real (totalCount \<lparr>page = Num 2, pageSize = 1, totalPages = 2, totalCount = 2\<rparr>) /
            real (pageSize \<lparr>page = Num 2, pageSize = 1, totalPages = 2, totalCount = 2\<rparr>)\<rceil>"
proof -
  let ?pg = "\<lparr>page = Num 2, pageSize = 1, totalPages = 2, totalCount = 2\<rparr>"
  have n: "0 < (1::nat)" by simp
  from GET_totalPages [OF n GET_page2]
  have "int (totalPages ?pg) = max 1 \<lceil>real (totalCount ?pg) / real (pageSize ?pg)\<rceil>" by blast
  with GET_page2 show ?thesis by blast
qed

lemma sorted_desc:
  "sorted_wrt (\<lambda>a b. createdDate b \<le> createdDate a) (sort_key (\<lambda>d. - createdDate d) ds)"
proof -
  have "sorted (map (\<lambda>d. - createdDate d) (sort_key (\<lambda>d. - createdDate d) ds))"
    by (rule sorted_sort_key)
  then show ?thesis by (simp add: sorted_map)
qed


text \<open>
  C9. The items of a successful list response are a page of the records that match the
  status filter (all records when the request has none), ordered by creation date,
  latest first: with \<open>p\<close> the page of the response, the first \<open>(p - 1) * pageSize\<close> of
  them are skipped and at most \<open>pageSize\<close> follow, each item carrying the five fields of
  its record and the identifier as a string. (A page number too long for a double is
  \<^verbatim>\<open>Infinity\<close>: every record is skipped.) A request for a page past the last record, on a
  reachable server that takes the skip, is answered with status 200 and no items. The
  collection is taken to hold fewer than \<open>2 ^ 53\<close> records.
\<close>

theorem GET_page_items:
  fixes request :: Request and q s
  defines "q \<equiv> (if get request (js ''status'') = Some [] then None else get request (js ''status''))"
    and "s \<equiv> (case get request (js ''page'') of None \<Rightarrow> js ''1''
                | Some t \<Rightarrow> if t = [] then js ''1'' else t)"
  assumes "0 < n" and "length (docs w) < 2 ^ 53"
  shows "(GET n pf request w = (Response 200 (Listing items pg), w') \<longrightarrow>
           (\<exists>ms sk. mset ms = mset (filter (\<lambda>d. q = None \<or> q = Some (status d)) (docs w)) \<and>
                 sorted_wrt (\<lambda>a b. createdDate b \<le> createdDate a) ms \<and>
                 (page pg = Infinity \<and> sk = length ms \<or>
                  (\<exists>p. page pg = Num p \<and> 1 \<le> p \<and> sk = nat (p - 1) * n)) \<and>
                 items = map (\<lambda>d. \<lparr>requestorName = requestorName d,
                                     itemRequested = itemRequested d,
                                     createdDate = createdDate d,
                                     lastEditedDate = lastEditedDate d,
                                     status = status d,
                                     id' = toString pf (oid d)\<rparr>)
                             (take n (drop sk ms)))) \<and>
         (reachable w \<and> parseInt s = Num p \<and> 1 \<le> p \<and>
          (q = None \<or> (\<exists>a \<in> set ALLOWED_STATUSES. q = Some a)) \<and>
          acceptsSkip pf (multiply (minus1 (Num p)) n) \<and>
          length (filter (\<lambda>d. q = None \<or> q = Some (status d)) (docs w)) \<le> nat (p - 1) * n \<longrightarrow>
           (\<exists>pg. fst (GET n pf request w) = Response 200 (Listing [] pg) \<and> page pg = Num p))"
proof (intro conjI impI)
  let ?ms = "sort_key (\<lambda>d. - createdDate d) (filter (matches q) (docs w))"
  let ?item = "\<lambda>d. \<lparr>requestorName = requestorName d, itemRequested = itemRequested d,
                     createdDate = createdDate d, lastEditedDate = lastEditedDate d,
                     status = status d, id' = toString pf (oid d)\<rparr>"
  have item: "toItem pf = ?item" by (rule ext) (simp add: toItem_def)
  have "length ?ms \<le> length (docs w)" by simp
  with assms(4) have len: "length ?ms < 2 ^ 53" by linarith
  assume g: "GET n pf request w = (Response 200 (Listing items pg), w')"
  from GET_success [OF g] have pv: "parseInt s \<noteq> NaN" "\<not> lessThan1 (parseInt s)" "page pg = parseInt s"
    and i: "items = map (toItem pf) (limit n (skipped (multiply (minus1 (parseInt s)) n) ?ms))"
    unfolding q_def s_def by auto
  have m: "mset ?ms = mset (filter (\<lambda>d. q = None \<or> q = Some (status d)) (docs w))"
    by (simp add: matches_alt)
  have so: "sorted_wrt (\<lambda>a b. createdDate b \<le> createdDate a) ?ms" by (rule sorted_desc)
  from page_cases [OF pv(1,2)]
  have "\<exists>sk. (page pg = Infinity \<and> sk = length ?ms \<or>
                (\<exists>p. page pg = Num p \<and> 1 \<le> p \<and> sk = nat (p - 1) * n)) \<and>
             items = map ?item (take n (drop sk ?ms))"
  proof
    assume inf: "parseInt s = Infinity"
    with i assms(3) have "items = map ?item (take n (drop (length ?ms) ?ms))"
      by (simp add: limit_def item)
    with inf pv(3) show ?thesis by auto
  next
    assume "\<exists>p. parseInt s = Num p \<and> 1 \<le> p"
    then obtain p where p: "parseInt s = Num p" "1 \<le> p" by blast
    from skip_exact [OF p(2) assms(3) len] i p(1) assms(3)
    have "items = map ?item (take n (drop (nat (p - 1) * n) ?ms))"
      by (simp add: limit_def item)
    with p pv(3) show ?thesis by auto
  qed
  with m so show "\<exists>ms sk. mset ms = mset (filter (\<lambda>d. q = None \<or> q = Some (status d)) (docs w)) \<and>
                 sorted_wrt (\<lambda>a b. createdDate b \<le> createdDate a) ms \<and>
                 (page pg = Infinity \<and> sk = length ms \<or>
                  (\<exists>p. page pg = Num p \<and> 1 \<le> p \<and> sk = nat (p - 1) * n)) \<and>
                 items = map ?item (take n (drop sk ms))"
    by blast
next
  let ?ms = "sort_key (\<lambda>d. - createdDate d) (filter (matches q) (docs w))"
  have "length ?ms \<le> length (docs w)" by simp
  with assms(4) have len: "length ?ms < 2 ^ 53" by linarith
  assume a: "reachable w \<and> parseInt s = Num p \<and> 1 \<le> p \<and>
          (q = None \<or> (\<exists>a \<in> set ALLOWED_STATUSES. q = Some a)) \<and>
          acceptsSkip pf (multiply (minus1 (Num p)) n) \<and>
          length (filter (\<lambda>d. q = None \<or> q = Some (status d)) (docs w)) \<le> nat (p - 1) * n"
  then have "length ?ms \<le> nat (p - 1) * n" by (simp add: matches_alt)
  then have "drop (nat (p - 1) * n) ?ms = []" by simp
  with a skip_exact [OF _ assms(3) len, of p]
  have e: "skipped (multiply (minus1 (Num p)) n) ?ms = []" by simp
  from a have "fst (GET n pf request w) =
     Response 200
       (Listing
          (map (toItem pf) (limit n (skipped (multiply (minus1 (Num p)) n) ?ms)))
          \<lparr>page = Num p, pageSize = n,
           totalPages = max 1 (nat \<lceil>real (length (filter (matches q) (docs w))) / real n\<rceil>),
           totalCount = length (filter (matches q) (docs w))\<rparr>)"
    unfolding q_def s_def by (intro GET_accepts) simp_all
  with e show "\<exists>pg. fst (GET n pf request w) = Response 200 (Listing [] pg) \<and> page pg = Num p"
    by (simp add: limit_def)
qed

lemma toHex_bob: "toHex 0x65F0A1B2C3D4E5F601234568 = js ''65f0a1b2c3d4e5f601234568''"
  by (simp add: toHex_def js_def hexDigit_def upt_rec)

lemma GET_approved:
  "GET 1 driver6 (listRequest [(''status'', ''approved'')]) office =
     (Response 200
        (Listing [\<lparr>requestorName = js ''Bob'', itemRequested = js ''ink'', createdDate = 2000,
                   lastEditedDate = 2500, status = js ''approved'',
                   id' = js ''65f0a1b2c3d4e5f601234568''\<rparr>]
           \<lparr>page = Num 1, pageSize = 1, totalPages = 1, totalCount = 1\<rparr>),
      office\<lparr>calls := [ListCollections, CountDocuments, Find]\<rparr>)"
  by (simp add: GET_def listRequest_def get_def js_inject parseInt_examples ALLOWED_STATUSES_def
        GET_try_reachable office_def ensure_existing docs_def matches_def ada_def bob_def limit_def
        Let_def js_Nil ceiling_nat_div toNumber_exact driver6_skip toItem_def driver6_def
        int64Skip_def toHex_bob)

theorem GET_page_items_witness:
  "GET 1 driver6 (listRequest [(''status'', ''approved'')]) office =
     (Response 200
        (Listing [\<lparr>requestorName = js ''Bob'', itemRequested = js ''ink'', createdDate = 2000,
                   lastEditedDate = 2500, status = js ''approved'',
                   id' = js ''65f0a1b2c3d4e5f601234568''\<rparr>]
           \<lparr>page = Num 1, pageSize = 1, totalPages = 1, totalCount = 1\<rparr>),
      office\<lparr>calls := [ListCollections, CountDocuments, Find]\<rparr>) \<and>
   (\<exists>ms. mset ms = mset (filter (\<lambda>d. Some (js ''approved'') = Some (status d)) [ada, bob]) \<and>
         sorted_wrt (\<lambda>a b. createdDate b \<le> createdDate a) ms \<and>
         [\<lparr>requestorName = js ''Bob'', itemRequested = js ''ink'', createdDate = 2000,
           lastEditedDate = 2500, status = js ''approved'',
           id' = js ''65f0a1b2c3d4e5f601234568''\<rparr>] =
         map (\<lambda>d. \<lparr>requestorName = requestorName d, itemRequested = itemRequested d,
                    createdDate = createdDate d, lastEditedDate = lastEditedDate d,
                    status = status d, id' = toString driver6 (oid d)\<rparr>)
             (take 1 (drop 0 ms))) \<and>
   parseInt (js ''5'') = Num 5 \<and>
   (\<exists>pg. fst (GET 10 driver6 (listRequest [(''page'', ''5'')]) office) = Response 200 (Listing [] pg) \<and>
         page pg = Num 5)"
proof -
  let ?r = "listRequest [(''status'', ''approved'')]"
  let ?bob = "\<lparr>requestorName = js ''Bob'', itemRequested = js ''ink'', createdDate = 2000,
                lastEditedDate = 2500, status = js ''approved'',
                id' = js ''65f0a1b2c3d4e5f601234568''\<rparr>"
  have n: "0 < (1::nat)" "0 < (10::nat)" by simp_all
  have q: "get ?r (js ''status'') = Some (js ''approved'')"
    "get (listRequest [(''page'', ''5'')]) (js ''status'') = None"
    "get (listRequest [(''page'', ''5'')]) (js ''page'') = Some (js ''5'')"
    by (simp_all add: listRequest_def get_def js_inject)
  have d: "docs office = [ada, bob]" "reachable office" "length (docs office) < 2 ^ 53"
    by (simp_all add: docs_def office_def)
  have k: "acceptsSkip driver6 (multiply (minus1 (Num 5)) 10)"
    by (simp add: toNumber_exact driver6_skip)
  from GET_page_items [OF n(1) d(3), where pf = driver6 and request = "?r"
        and items = "[?bob]"
        and pg = "\<lparr>page = Num 1, pageSize = 1, totalPages = 1, totalCount = 1\<rparr>"
        and w' = "office\<lparr>calls := [ListCollections, CountDocuments, Find]\<rparr>"] GET_approved
  have one: "\<exists>ms. mset ms = mset (filter (\<lambda>d. Some (js ''approved'') = Some (status d)) [ada, bob]) \<and>
         sorted_wrt (\<lambda>a b. createdDate b \<le> createdDate a) ms \<and>
         [?bob] =
         map (\<lambda>d. \<lparr>requestorName = requestorName d, itemRequested = itemRequested d,
                    createdDate = createdDate d, lastEditedDate = lastEditedDate d,
                    status = status d, id' = toString driver6 (oid d)\<rparr>)
             (take 1 (drop 0 ms))"
    by (simp add: q d js_Nil)
  from GET_page_items [OF n(2) d(3), where pf = driver6 and request = "listRequest [(''page'', ''5'')]"
        and p = 5] k
  have two: "\<exists>pg. fst (GET 10 driver6 (listRequest [(''page'', ''5'')]) office) = Response 200 (Listing [] pg) \<and>
         page pg = Num 5"
    by (simp add: q d js_Nil parseInt_examples)
  from GET_approved one two show ?thesis by (simp add: parseInt_examples)
qed

section \<open>Updating a status\<close>

lemma validatePatchBody_Inl:
  "validatePatchBody body = Inl e \<Longrightarrow> instanceofInputException e"
  by (auto simp: validatePatchBody_def split: if_splits)

lemma validatePatchBody_Inr:
  "validatePatchBody body = Inr u \<Longrightarrow>
     typeof (property body (js ''id'')) = ''string'' \<and>
     trim (strOf (property body (js ''id''))) \<noteq> [] \<and>
     typeof (property body (js ''status'')) = ''string'' \<and>
     strOf (property body (js ''status'')) \<in> set ALLOWED_STATUSES"
  by (auto simp: validatePatchBody_def split: if_splits)

lemma PATCH_try_rejects:
  assumes "json request = Some body"
    and "validatePatchBody body \<noteq> Inr () \<or> \<not> isValid pf (strOf (property body (js ''id'')))"
  shows "\<exists>m. PATCH_try pf now request w = (Inl (InvalidInputError m), w) \<and>
             PATCH_typed_try pf now request w = (Inl (InvalidInputError m), w)"
proof (cases "validatePatchBody body")
  case (Inl e)
  then obtain m where "e = InvalidInputError m"
    by (auto simp: validatePatchBody_def split: if_splits)
  with Inl assms(1) show ?thesis by (simp add: PATCH_try_def PATCH_typed_try_def)
next
  case (Inr u)
  with assms have "\<not> isValid pf (strOf (property body (js ''id'')))" by simp
  with Inr assms(1) show ?thesis by (simp add: PATCH_try_def PATCH_typed_try_def)
qed

text \<open>
  C4. A status update whose \<^verbatim>\<open>id\<close> is missing or not a string, empty or blank, or not a
  valid ObjectId, or whose \<^verbatim>\<open>status\<close> is missing, not a string or none of the four enum
  values, is answered with the input-validation error by both \<^verbatim>\<open>PATCH\<close> handlers, and the
  state is the one before: no driver call is issued and no record is changed.
\<close>

theorem PATCH_rejects_invalid:
  assumes "json request = Some body"
    and "typeof (property body (js ''id'')) \<noteq> ''string'' \<or>
         trim (strOf (property body (js ''id''))) = [] \<or>
         \<not> isValid pf (strOf (property body (js ''id''))) \<or>
         typeof (property body (js ''status'')) \<noteq> ''string'' \<or>
         strOf (property body (js ''status'')) \<notin>
           {js ''pending'', js ''completed'', js ''approved'', js ''rejected''}"
  shows "PATCH pf now request w = (Built INVALID_INPUT, w) \<and>
         PATCH_typed pf now request w = (Built INVALID_INPUT, w)"
proof -
  from assms(2) have "validatePatchBody body \<noteq> Inr () \<or> \<not> isValid pf (strOf (property body (js ''id'')))"
    by (auto simp: validatePatchBody_def ALLOWED_STATUSES_def)
  from PATCH_try_rejects [OF assms(1) this, of now w] obtain m where
    "PATCH_try pf now request w = (Inl (InvalidInputError m), w)"
    "PATCH_typed_try pf now request w = (Inl (InvalidInputError m), w)" by blast
  then show ?thesis by (simp add: PATCH_def PATCH_typed_def)
qed

theorem PATCH_rejects_invalid_witness:
  "\<not> isValid driver6 (js ''65f0'') \<and>
   js ''done'' \<notin> {js ''pending'', js ''completed'', js ''approved'', js ''rejected''} \<and>
   PATCH driver6 5 (jsonRequest [(''id'', JStr (js ''65f0'')), (''status'', JStr (js ''approved''))]) office
     = (Built INVALID_INPUT, office) \<and>
   PATCH_typed driver6 5
     (jsonRequest [(''id'', JStr (js ''65f0a1b2c3d4e5f601234567'')), (''status'', JStr (js ''done''))]) office
     = (Built INVALID_INPUT, office)"
proof -
  let ?b1 = "JObj [(js ''id'', JStr (js ''65f0'')), (js ''status'', JStr (js ''approved''))]"
  let ?b2 = "JObj [(js ''id'', JStr (js ''65f0a1b2c3d4e5f601234567'')), (js ''status'', JStr (js ''done''))]"
  have v: "\<not> isValid driver6 (js ''65f0'')" by (simp add: driver6_def isHex24_def length_js)
  have s: "js ''done'' \<notin> {js ''pending'', js ''completed'', js ''approved'', js ''rejected''}"
    by (simp add: js_inject)
  have j1: "json (jsonRequest [(''id'', JStr (js ''65f0'')), (''status'', JStr (js ''approved''))]) = Some ?b1"
    by (simp add: jsonRequest_def)
  have j2: "json (jsonRequest [(''id'', JStr (js ''65f0a1b2c3d4e5f601234567'')), (''status'', JStr (js ''done''))]) = Some ?b2"
    by (simp add: jsonRequest_def)
  have h1: "\<not> isValid driver6 (strOf (property ?b1 (js ''id'')))" using v by (simp add: js_inject)
  have h2: "strOf (property ?b2 (js ''status'')) \<notin> {js ''pending'', js ''completed'', js ''approved'', js ''rejected''}"
    using s by (simp add: js_inject)
  from PATCH_rejects_invalid [OF j1, of driver6 5 office] h1
       PATCH_rejects_invalid [OF j2, of driver6 5 office] h2 v s
  show ?thesis by blast
qed

lemma find_updateFirst:
  "find P xs = Some d \<Longrightarrow>
     \<exists>pre post. xs = pre @ d # post \<and> P d \<and> (\<forall>x \<in> set pre. \<not> P x) \<and>
                updateFirst P f xs = pre @ f d # post"
proof (induction xs)
  case Nil
  then show ?case by simp
next
  case (Cons x xs)
  show ?case
  proof (cases "P x")
    case True
    with Cons.prems have "x = d" by simp
    with True have "x # xs = [] @ d # xs \<and> P d \<and> (\<forall>x \<in> set []. \<not> P x) \<and>
                updateFirst P f (x # xs) = [] @ f d # xs" by simp
    then show ?thesis by blast
  next
    case False
    with Cons.prems have "find P xs = Some d" by simp
    from Cons.IH [OF this] obtain pre post where
      "xs = pre @ d # post" "P d" "\<forall>x \<in> set pre. \<not> P x" "updateFirst P f xs = pre @ f d # post"
      by blast
    with False have "x # xs = (x # pre) @ d # post \<and> P d \<and> (\<forall>y \<in> set (x # pre). \<not> P y) \<and>
                updateFirst P f (x # xs) = (x # pre) @ f d # post" by simp
    then show ?thesis by blast
  qed
qed

lemma docs_requests_update:
  "docs (w\<lparr>requests := Some c\<rparr>) = documents c"
  by (simp add: docs_def)

lemma findOneAndUpdate_cases:
  assumes "findOneAndUpdate pf i st now w = (r, w')"
  shows "(docs w' = docs w \<and> (r = Inl MongoError \<or> r = Inr (resolved pf None))) \<or>
         (\<exists>pre d post. docs w = pre @ d # post \<and> oid d = i \<and> (\<forall>x \<in> set pre. oid x \<noteq> i) \<and>
            docs w' = pre @ d\<lparr>status := st, lastEditedDate := now\<rparr> # post \<and>
            r = Inr (resolved pf (Some (d\<lparr>status := st, lastEditedDate := now\<rparr>))))"
proof (cases "requests w")
  case None
  with assms show ?thesis by (auto simp: findOneAndUpdate_def docs_def)
next
  case (Some c)
  show ?thesis
  proof (cases "find (\<lambda>d. oid d = i) (documents c)")
    case None
    with Some assms show ?thesis by (auto simp: findOneAndUpdate_def docs_def)
  next
    case found: (Some d)
    show ?thesis
    proof (cases "rejects c (d\<lparr>status := st, lastEditedDate := now\<rparr>)")
      case True
      with Some found assms show ?thesis by (auto simp: findOneAndUpdate_def docs_def Let_def)
    next
      case False
      from find_updateFirst [OF found, of "\<lambda>d. d\<lparr>status := st, lastEditedDate := now\<rparr>"]
      obtain pre post where s: "documents c = pre @ d # post" "oid d = i" "\<forall>x \<in> set pre. oid x \<noteq> i"
        "updateFirst (\<lambda>d. oid d = i) (\<lambda>d. d\<lparr>status := st, lastEditedDate := now\<rparr>) (documents c)
           = pre @ d\<lparr>status := st, lastEditedDate := now\<rparr> # post" by blast
      from Some found False assms have
        "r = Inr (resolved pf (Some (d\<lparr>status := st, lastEditedDate := now\<rparr>)))"
        "docs w' = updateFirst (\<lambda>d. oid d = i) (\<lambda>d. d\<lparr>status := st, lastEditedDate := now\<rparr>) (documents c)"
        by (auto simp: findOneAndUpdate_def docs_def Let_def)
      with s Some show ?thesis by (auto simp: docs_def)
    qed
  qed
qed

lemma PATCH_front_fail:
  assumes "json request = None \<or>
           (\<exists>body. json request = Some body \<and>
              (validatePatchBody body \<noteq> Inr () \<or> \<not> isValid pf (strOf (property body (js ''id''))))) \<or>
           \<not> reachable w"
  shows "\<exists>e e'. PATCH_try pf now request w = (Inl e, w) \<and> PATCH_typed_try pf now request w = (Inl e', w)"
proof (cases "json request")
  case None
  then show ?thesis by (simp add: PATCH_try_def PATCH_typed_try_def)
next
  case (Some body)
  show ?thesis
  proof (cases "validatePatchBody body \<noteq> Inr () \<or> \<not> isValid pf (strOf (property body (js ''id'')))")
    case True
    from PATCH_try_rejects [OF Some True] show ?thesis by blast
  next
    case False
    with assms Some have "\<not> reachable w" by auto
    with False Some show ?thesis
      by (auto simp: PATCH_try_def PATCH_typed_try_def ensure_unreachable)
  qed
qed

lemma PATCH_front:
  assumes "json request = Some body" and "validatePatchBody body = Inr ()"
    and "isValid pf (strOf (property body (js ''id'')))" and "reachable w"
  shows "PATCH_try pf now request w =
           (case findOneAndUpdate pf (newObjectId pf (strOf (property body (js ''id''))))
                   (strOf (property body (js ''status''))) now (snd (ensureRequestsCollection w)) of
              (Inl e, w2) \<Rightarrow> (Inl e, w2)
            | (Inr result, w2) \<Rightarrow>
                (case value result of
                   None \<Rightarrow> (Inl (InvalidInputError ''Request not found''), w2)
                 | Some d \<Rightarrow> (Inr (Response 200 (Updated (toItem pf d))), w2)))"
    and "PATCH_typed_try pf now request w =
           (case findOneAndUpdate pf (newObjectId pf (strOf (property body (js ''id''))))
                   (strOf (property body (js ''status''))) now (snd (ensureRequestsCollection w)) of
              (Inl e, w2) \<Rightarrow> (Inl e, w2)
            | (Inr result, w2) \<Rightarrow>
                (case result of
                   Null \<Rightarrow> (Inl (InvalidInputError ''Request not found''), w2)
                 | Document d \<Rightarrow> (Inr (Response 200 (Updated (toItem pf d))), w2)
                 | ModifyResult v \<Rightarrow> (Inl TypeError, w2)))"
proof -
  obtain r1 w1 where e: "ensureRequestsCollection w = (r1, w1)" by (cases "ensureRequestsCollection w")
  from ensure_cases [OF e] assms(4) have k: "r1 = Inr ()" "reachable w1" by auto
  show "PATCH_try pf now request w =
           (case findOneAndUpdate pf (newObjectId pf (strOf (property body (js ''id''))))
                   (strOf (property body (js ''status''))) now (snd (ensureRequestsCollection w)) of
              (Inl e, w2) \<Rightarrow> (Inl e, w2)
            | (Inr result, w2) \<Rightarrow>
                (case value result of
                   None \<Rightarrow> (Inl (InvalidInputError ''Request not found''), w2)
                 | Some d \<Rightarrow> (Inr (Response 200 (Updated (toItem pf d))), w2)))"
    unfolding PATCH_try_def e k(1) using assms(1-3) k(2) by (simp add: getDb_def)
  show "PATCH_typed_try pf now request w =
           (case findOneAndUpdate pf (newObjectId pf (strOf (property body (js ''id''))))
                   (strOf (property body (js ''status''))) now (snd (ensureRequestsCollection w)) of
              (Inl e, w2) \<Rightarrow> (Inl e, w2)
            | (Inr result, w2) \<Rightarrow>
                (case result of
                   Null \<Rightarrow> (Inl (InvalidInputError ''Request not found''), w2)
                 | Document d \<Rightarrow> (Inr (Response 200 (Updated (toItem pf d))), w2)
                 | ModifyResult v \<Rightarrow> (Inl TypeError, w2)))"
    unfolding PATCH_typed_try_def e k(1) using assms(1-3) k(2) by (simp add: getDb_def)
qed

lemma value_resolved_None: "value (resolved pf None) = None"
  by (simp add: resolved_def)

lemma PATCH_try_effect:
  assumes "PATCH_try pf now request w = (r, w')"
  shows "(docs w' = docs w \<and> (\<exists>e. r = Inl e)) \<or>
         (\<exists>body pre d post d'. json request = Some body \<and> docs w = pre @ d # post \<and>
            oid d = newObjectId pf (strOf (property body (js ''id''))) \<and>
            d' = d\<lparr>status := strOf (property body (js ''status'')), lastEditedDate := now\<rparr> \<and>
            docs w' = pre @ d' # post \<and>
            (r = Inr (Response 200 (Updated (toItem pf d'))) \<or> (\<exists>e. r = Inl e)))"
proof (cases "json request = None \<or>
           (\<exists>body. json request = Some body \<and>
              (validatePatchBody body \<noteq> Inr () \<or> \<not> isValid pf (strOf (property body (js ''id''))))) \<or>
           \<not> reachable w")
  case True
  from PATCH_front_fail [OF True, of now] assms show ?thesis by auto
next
  case False
  then obtain body where b: "json request = Some body" "validatePatchBody body = Inr ()"
    "isValid pf (strOf (property body (js ''id'')))" "reachable w" by auto
  let ?i = "newObjectId pf (strOf (property body (js ''id'')))"
  let ?st = "strOf (property body (js ''status''))"
  let ?w1 = "snd (ensureRequestsCollection w)"
  obtain r2 w2 where f: "findOneAndUpdate pf ?i ?st now ?w1 = (r2, w2)"
    by (cases "findOneAndUpdate pf ?i ?st now ?w1")
  from PATCH_front(1) [OF b, of now] f assms have res:
    "(case r2 of Inl e \<Rightarrow> (Inl e, w2)
      | Inr result \<Rightarrow>
          (case value result of
             None \<Rightarrow> (Inl (InvalidInputError ''Request not found''), w2)
           | Some d \<Rightarrow> (Inr (Response 200 (Updated (toItem pf d))), w2))) = (r, w')"
    by (simp split: sum.splits)
  from findOneAndUpdate_cases [OF f] show ?thesis
  proof
    assume "docs w2 = docs ?w1 \<and> (r2 = Inl MongoError \<or> r2 = Inr (resolved pf None))"
    with res have "docs w' = docs w \<and> (\<exists>e. r = Inl e)"
      by (auto simp: ensure_docs value_resolved_None)
    then show ?thesis ..
  next
    assume "\<exists>pre d post. docs ?w1 = pre @ d # post \<and> oid d = ?i \<and> (\<forall>x \<in> set pre. oid x \<noteq> ?i) \<and>
            docs w2 = pre @ d\<lparr>status := ?st, lastEditedDate := now\<rparr> # post \<and>
            r2 = Inr (resolved pf (Some (d\<lparr>status := ?st, lastEditedDate := now\<rparr>)))"
    then obtain pre d post where u: "docs w = pre @ d # post" "oid d = ?i"
      "docs w2 = pre @ d\<lparr>status := ?st, lastEditedDate := now\<rparr> # post"
      "r2 = Inr (resolved pf (Some (d\<lparr>status := ?st, lastEditedDate := now\<rparr>)))"
      by (auto simp: ensure_docs)
    from res u(4) have "w' = w2 \<and> (r = Inr (Response 200 (Updated (toItem pf (d\<lparr>status := ?st, lastEditedDate := now\<rparr>))))
             \<or> (\<exists>e. r = Inl e))"
      by (auto simp: resolved_def split: if_splits)
    with u b(1) show ?thesis by blast
  qed
qed

lemma PATCH_typed_try_effect:
  assumes "PATCH_typed_try pf now request w = (r, w')"
  shows "(docs w' = docs w \<and> (\<exists>e. r = Inl e)) \<or>
         (\<exists>body pre d post d'. json request = Some body \<and> docs w = pre @ d # post \<and>
            oid d = newObjectId pf (strOf (property body (js ''id''))) \<and>
            d' = d\<lparr>status := strOf (property body (js ''status'')), lastEditedDate := now\<rparr> \<and>
            docs w' = pre @ d' # post \<and>
            (r = Inr (Response 200 (Updated (toItem pf d'))) \<or> (\<exists>e. r = Inl e)))"
proof (cases "json request = None \<or>
           (\<exists>body. json request = Some body \<and>
              (validatePatchBody body \<noteq> Inr () \<or> \<not> isValid pf (strOf (property body (js ''id''))))) \<or>
           \<not> reachable w")
  case True
  from PATCH_front_fail [OF True, of now] assms show ?thesis by auto
next
  case False
  then obtain body where b: "json request = Some body" "validatePatchBody body = Inr ()"
    "isValid pf (strOf (property body (js ''id'')))" "reachable w" by auto
  let ?i = "newObjectId pf (strOf (property body (js ''id'')))"
  let ?st = "strOf (property body (js ''status''))"
  let ?w1 = "snd (ensureRequestsCollection w)"
  obtain r2 w2 where f: "findOneAndUpdate pf ?i ?st now ?w1 = (r2, w2)"
    by (cases "findOneAndUpdate pf ?i ?st now ?w1")
  from PATCH_front(2) [OF b, of now] f assms have res:
    "(case r2 of Inl e \<Rightarrow> (Inl e, w2)
      | Inr result \<Rightarrow>
          (case result of
             Null \<Rightarrow> (Inl (InvalidInputError ''Request not found''), w2)
           | Document d \<Rightarrow> (Inr (Response 200 (Updated (toItem pf d))), w2)
           | ModifyResult v \<Rightarrow> (Inl TypeError, w2))) = (r, w')"
    by (simp split: sum.splits)
  from findOneAndUpdate_cases [OF f] show ?thesis
  proof
    assume "docs w2 = docs ?w1 \<and> (r2 = Inl MongoError \<or> r2 = Inr (resolved pf None))"
    with res have "docs w' = docs w \<and> (\<exists>e. r = Inl e)"
      by (auto simp: ensure_docs resolved_def split: if_splits)
    then show ?thesis ..
  next
    assume "\<exists>pre d post. docs ?w1 = pre @ d # post \<and> oid d = ?i \<and> (\<forall>x \<in> set pre. oid x \<noteq> ?i) \<and>
            docs w2 = pre @ d\<lparr>status := ?st, lastEditedDate := now\<rparr> # post \<and>
            r2 = Inr (resolved pf (Some (d\<lparr>status := ?st, lastEditedDate := now\<rparr>)))"
    then obtain pre d post where u: "docs w = pre @ d # post" "oid d = ?i"
      "docs w2 = pre @ d\<lparr>status := ?st, lastEditedDate := now\<rparr> # post"
      "r2 = Inr (resolved pf (Some (d\<lparr>status := ?st, lastEditedDate := now\<rparr>)))"
      by (auto simp: ensure_docs)
    from res u(4) have "w' = w2 \<and> (r = Inr (Response 200 (Updated (toItem pf (d\<lparr>status := ?st, lastEditedDate := now\<rparr>))))
             \<or> (\<exists>e. r = Inl e))"
      by (auto simp: resolved_def split: if_splits)
    with u b(1) show ?thesis by blast
  qed
qed

lemma PATCH_effect:
  assumes "PATCH pf now request w = (response, w') \<or> PATCH_typed pf now request w = (response, w')"
  shows "(docs w' = docs w \<and> (\<exists>t. response = Built t)) \<or>
         (\<exists>body pre d post d'. json request = Some body \<and> docs w = pre @ d # post \<and>
            oid d = newObjectId pf (strOf (property body (js ''id''))) \<and>
            d' = d\<lparr>status := strOf (property body (js ''status'')), lastEditedDate := now\<rparr> \<and>
            docs w' = pre @ d' # post \<and>
            (response = Response 200 (Updated (toItem pf d')) \<or> (\<exists>t. response = Built t)))"
proof -
  have "\<exists>r. ((\<exists>e. r = Inl e) \<longrightarrow> (\<exists>t. response = Built t)) \<and> (\<forall>x. r = Inr x \<longrightarrow> response = x) \<and>
            ((docs w' = docs w \<and> (\<exists>e. r = Inl e)) \<or>
             (\<exists>body pre d post d'. json request = Some body \<and> docs w = pre @ d # post \<and>
                oid d = newObjectId pf (strOf (property body (js ''id''))) \<and>
                d' = d\<lparr>status := strOf (property body (js ''status'')), lastEditedDate := now\<rparr> \<and>
                docs w' = pre @ d' # post \<and>
                (r = Inr (Response 200 (Updated (toItem pf d'))) \<or> (\<exists>e. r = Inl e))))"
    using assms
  proof
    assume a: "PATCH pf now request w = (response, w')"
    obtain r w1 where t: "PATCH_try pf now request w = (r, w1)" by (cases "PATCH_try pf now request w")
    with a have k: "w1 = w'" "(\<exists>e. r = Inl e) \<longrightarrow> (\<exists>t. response = Built t)" "\<forall>x. r = Inr x \<longrightarrow> response = x"
      by (auto simp: PATCH_def split: sum.splits if_splits)
    from PATCH_try_effect [OF t] k show ?thesis by blast
  next
    assume a: "PATCH_typed pf now request w = (response, w')"
    obtain r w1 where t: "PATCH_typed_try pf now request w = (r, w1)"
      by (cases "PATCH_typed_try pf now request w")
    with a have k: "w1 = w'" "(\<exists>e. r = Inl e) \<longrightarrow> (\<exists>t. response = Built t)" "\<forall>x. r = Inr x \<longrightarrow> response = x"
      by (auto simp: PATCH_typed_def split: sum.splits if_splits)
    from PATCH_typed_try_effect [OF t] k show ?thesis by blast
  qed
  then obtain r where r: "(\<exists>e. r = Inl e) \<longrightarrow> (\<exists>t. response = Built t)" "\<forall>x. r = Inr x \<longrightarrow> response = x"
    and c: "(docs w' = docs w \<and> (\<exists>e. r = Inl e)) \<or>
             (\<exists>body pre d post d'. json request = Some body \<and> docs w = pre @ d # post \<and>
                oid d = newObjectId pf (strOf (property body (js ''id''))) \<and>
                d' = d\<lparr>status := strOf (property body (js ''status'')), lastEditedDate := now\<rparr> \<and>
                docs w' = pre @ d' # post \<and>
                (r = Inr (Response 200 (Updated (toItem pf d'))) \<or> (\<exists>e. r = Inl e)))"
    by blast
  from c show ?thesis
  proof
    assume "docs w' = docs w \<and> (\<exists>e. r = Inl e)"
    with r(1) show ?thesis by blast
  next
    assume "\<exists>body pre d post d'. json request = Some body \<and> docs w = pre @ d # post \<and>
                oid d = newObjectId pf (strOf (property body (js ''id''))) \<and>
                d' = d\<lparr>status := strOf (property body (js ''status'')), lastEditedDate := now\<rparr> \<and>
                docs w' = pre @ d' # post \<and>
                (r = Inr (Response 200 (Updated (toItem pf d'))) \<or> (\<exists>e. r = Inl e))"
    then obtain body pre d post d' where u: "json request = Some body" "docs w = pre @ d # post"
      "oid d = newObjectId pf (strOf (property body (js ''id'')))"
      "d' = d\<lparr>status := strOf (property body (js ''status'')), lastEditedDate := now\<rparr>"
      "docs w' = pre @ d' # post"
      and v: "r = Inr (Response 200 (Updated (toItem pf d'))) \<or> (\<exists>e. r = Inl e)" by blast
    from v r have "response = Response 200 (Updated (toItem pf d')) \<or> (\<exists>t. response = Built t)" by blast
    with u show ?thesis by blast
  qed
qed

text \<open>
  C2. When a status update is answered with 200 by either \<^verbatim>\<open>PATCH\<close> handler, one record
  of the collection, with the identifier of the request, has the requested status and
  the time of the update as its edit timestamp; its requestor name, item, creation
  timestamp and identifier are as before, and so is every other record. No handler
  deletes: \<^verbatim>\<open>PUT\<close> keeps every record and may append one, \<^verbatim>\<open>GET\<close> leaves the records as
  they are, and the \<^verbatim>\<open>PATCH\<close> handlers keep the identifiers of all records, in order.
\<close>

theorem PATCH_changes_only_status:
  "((PATCH pf now request w = (Response 200 (Updated it), w') \<or>
     PATCH_typed pf now request w = (Response 200 (Updated it), w')) \<longrightarrow>
      (\<exists>body pre d post d'.
          json request = Some body \<and> docs w = pre @ d # post \<and> docs w' = pre @ d' # post \<and>
          oid d = newObjectId pf (strOf (property body (js ''id''))) \<and>
          status d' = strOf (property body (js ''status'')) \<and> lastEditedDate d' = now \<and>
          requestorName d' = requestorName d \<and> itemRequested d' = itemRequested d \<and>
          createdDate d' = createdDate d \<and> oid d' = oid d \<and> it = toItem pf d')) \<and>
   prefix (docs w) (docs (snd (PUT now newId request w))) \<and>
   docs (snd (GET n pf request w)) = docs w \<and>
   map oid (docs (snd (PATCH pf now request w))) = map oid (docs w) \<and>
   map oid (docs (snd (PATCH_typed pf now request w))) = map oid (docs w)"
proof (intro conjI impI)
  assume a: "PATCH pf now request w = (Response 200 (Updated it), w') \<or>
     PATCH_typed pf now request w = (Response 200 (Updated it), w')"
  from PATCH_effect [OF a] obtain body pre d post d' where
    "json request = Some body" "docs w = pre @ d # post"
    "oid d = newObjectId pf (strOf (property body (js ''id'')))"
    "d' = d\<lparr>status := strOf (property body (js ''status'')), lastEditedDate := now\<rparr>"
    "docs w' = pre @ d' # post" "it = toItem pf d'" by auto
  then have "json request = Some body \<and> docs w = pre @ d # post \<and> docs w' = pre @ d' # post \<and>
          oid d = newObjectId pf (strOf (property body (js ''id''))) \<and>
          status d' = strOf (property body (js ''status'')) \<and> lastEditedDate d' = now \<and>
          requestorName d' = requestorName d \<and> itemRequested d' = itemRequested d \<and>
          createdDate d' = createdDate d \<and> oid d' = oid d \<and> it = toItem pf d'" by simp
  then show "\<exists>body pre d post d'.
          json request = Some body \<and> docs w = pre @ d # post \<and> docs w' = pre @ d' # post \<and>
          oid d = newObjectId pf (strOf (property body (js ''id''))) \<and>
          status d' = strOf (property body (js ''status'')) \<and> lastEditedDate d' = now \<and>
          requestorName d' = requestorName d \<and> itemRequested d' = itemRequested d \<and>
          createdDate d' = createdDate d \<and> oid d' = oid d \<and> it = toItem pf d'" by blast
next
  obtain r w1 where t: "PUT_try now newId request w = (r, w1)" by (cases "PUT_try now newId request w")
  then have "snd (PUT now newId request w) = w1" by (auto simp: PUT_def split: sum.splits)
  with PUT_try_docs [OF t] show "prefix (docs w) (docs (snd (PUT now newId request w)))" by auto
next
  show "docs (snd (GET n pf request w)) = docs w" by (rule GET_docs)
next
  obtain response w1 where p: "PATCH pf now request w = (response, w1)" by (cases "PATCH pf now request w")
  then have "PATCH pf now request w = (response, w1) \<or> PATCH_typed pf now request w = (response, w1)" ..
  from PATCH_effect [OF this] p show "map oid (docs (snd (PATCH pf now request w))) = map oid (docs w)"
    by auto
next
  obtain response w1 where p: "PATCH_typed pf now request w = (response, w1)"
    by (cases "PATCH_typed pf now request w")
  then have "PATCH pf now request w = (response, w1) \<or> PATCH_typed pf now request w = (response, w1)" ..
  from PATCH_effect [OF this] p show "map oid (docs (snd (PATCH_typed pf now request w))) = map oid (docs w)"
    by auto
qed

lemma approveAda_valid:
  "json approveAda = Some (JObj [(js ''id'', JStr (js ''65f0a1b2c3d4e5f601234567'')),
                                 (js ''status'', JStr (js ''approved''))])"
  "validatePatchBody (JObj [(js ''id'', JStr (js ''65f0a1b2c3d4e5f601234567'')),
                            (js ''status'', JStr (js ''approved''))]) = Inr ()"
  "isHex24 (js ''65f0a1b2c3d4e5f601234567'')"
  "fromHex (js ''65f0a1b2c3d4e5f601234567'') = 0x65F0A1B2C3D4E5F601234567"
     apply (simp add: approveAda_def jsonRequest_def)
    apply (simp add: validatePatchBody_def js_inject ALLOWED_STATUSES_def)
    apply (simp add: trim_def js_def isWhiteSpace_def)
   apply (simp add: isHex24_def js_def hexValue_def)
  apply (simp add: fromHex_def js_def hexValue_def)
  done

lemma approveAda_update:
  "findOneAndUpdate pf 0x65F0A1B2C3D4E5F601234567 (js ''approved'') 5
      (office\<lparr>calls := [ListCollections]\<rparr>) =
     (Inr (resolved pf (Some (ada\<lparr>status := js ''approved'', lastEditedDate := 5\<rparr>))), officeApproved)"
  by (simp add: findOneAndUpdate_def office_def officeApproved_def ada_def bob_def rejects_def
      matchesSchema_def requestsSchema_def anything_def matchesProperty_def toBson_def codePoints_js
      js_inject Let_def)

lemma PATCH_try_approveAda:
  assumes "isValid pf (js ''65f0a1b2c3d4e5f601234567'')"
    and "newObjectId pf (js ''65f0a1b2c3d4e5f601234567'') = 0x65F0A1B2C3D4E5F601234567"
  shows "PATCH_try pf 5 approveAda office =
           (if includeResultMetadata pf
            then Inr (Response 200 (Updated (toItem pf (ada\<lparr>status := js ''approved'', lastEditedDate := 5\<rparr>))))
            else Inl (InvalidInputError ''Request not found''), officeApproved)"
    and "PATCH_typed_try pf 5 approveAda office =
           (if includeResultMetadata pf then Inl TypeError
            else Inr (Response 200 (Updated (toItem pf (ada\<lparr>status := js ''approved'', lastEditedDate := 5\<rparr>)))),
            officeApproved)"
proof -
  let ?b = "JObj [(js ''id'', JStr (js ''65f0a1b2c3d4e5f601234567'')),
                  (js ''status'', JStr (js ''approved''))]"
  have i: "strOf (property ?b (js ''id'')) = js ''65f0a1b2c3d4e5f601234567''"
          "strOf (property ?b (js ''status'')) = js ''approved''"
    by (simp_all add: js_inject)
  have v: "isValid pf (strOf (property ?b (js ''id'')))"
    by (simp only: i assms approveAda_valid)
  have r: "reachable office" by (simp add: office_def)
  have e: "snd (ensureRequestsCollection office) = office\<lparr>calls := [ListCollections]\<rparr>"
    by (simp add: ensure_existing office_def)
  show "PATCH_try pf 5 approveAda office =
           (if includeResultMetadata pf
            then Inr (Response 200 (Updated (toItem pf (ada\<lparr>status := js ''approved'', lastEditedDate := 5\<rparr>))))
            else Inl (InvalidInputError ''Request not found''), officeApproved)"
    by (simp add: PATCH_front(1) [OF approveAda_valid(1,2) v r] js_inject assms approveAda_valid e
        approveAda_update resolved_def)
  show "PATCH_typed_try pf 5 approveAda office =
           (if includeResultMetadata pf then Inl TypeError
            else Inr (Response 200 (Updated (toItem pf (ada\<lparr>status := js ''approved'', lastEditedDate := 5\<rparr>)))),
            officeApproved)"
    by (simp add: PATCH_front(2) [OF approveAda_valid(1,2) v r] js_inject assms approveAda_valid e
        approveAda_update resolved_def)
qed

theorem PATCH_changes_only_status_witness:
  "PATCH_typed driver6 5 approveAda office =
     (Response 200 (Updated (toItem driver6 (ada\<lparr>status := js ''approved'', lastEditedDate := 5\<rparr>))),
      officeApproved) \<and>
   (\<exists>body pre d post d'.
      json approveAda = Some body \<and> docs office = pre @ d # post \<and>
      docs officeApproved = pre @ d' # post \<and>
      oid d = newObjectId driver6 (strOf (property body (js ''id''))) \<and>
      status d' = strOf (property body (js ''status'')) \<and> lastEditedDate d' = 5 \<and>
      requestorName d' = requestorName d \<and> itemRequested d' = itemRequested d \<and>
      createdDate d' = createdDate d \<and> oid d' = oid d \<and>
      toItem driver6 (ada\<lparr>status := js ''approved'', lastEditedDate := 5\<rparr>) = toItem driver6 d')"
proof -
  have six: "isValid driver6 (js ''65f0a1b2c3d4e5f601234567'')"
    "newObjectId driver6 (js ''65f0a1b2c3d4e5f601234567'') = 0x65F0A1B2C3D4E5F601234567"
    "\<not> includeResultMetadata driver6"
    by (simp_all add: driver6_def approveAda_valid)
  have e: "PATCH_typed driver6 5 approveAda office =
     (Response 200 (Updated (toItem driver6 (ada\<lparr>status := js ''approved'', lastEditedDate := 5\<rparr>))),
      officeApproved)"
    by (simp add: PATCH_typed_def PATCH_try_approveAda [OF six(1,2)] six(3))
  then have "PATCH driver6 5 approveAda office =
     (Response 200 (Updated (toItem driver6 (ada\<lparr>status := js ''approved'', lastEditedDate := 5\<rparr>))),
      officeApproved) \<or> PATCH_typed driver6 5 approveAda office =
     (Response 200 (Updated (toItem driver6 (ada\<lparr>status := js ''approved'', lastEditedDate := 5\<rparr>))),
      officeApproved)" ..
  with PATCH_changes_only_status [where pf = driver6 and now = 5 and request = approveAda
      and w = office and w' = officeApproved
      and it = "toItem driver6 (ada\<lparr>status := js ''approved'', lastEditedDate := 5\<rparr>)"]
  have "\<exists>body pre d post d'.
      json approveAda = Some body \<and> docs office = pre @ d # post \<and>
      docs officeApproved = pre @ d' # post \<and>
      oid d = newObjectId driver6 (strOf (property body (js ''id''))) \<and>
      status d' = strOf (property body (js ''status'')) \<and> lastEditedDate d' = 5 \<and>
      requestorName d' = requestorName d \<and> itemRequested d' = itemRequested d \<and>
      createdDate d' = createdDate d \<and> oid d' = oid d \<and>
      toItem driver6 (ada\<lparr>status := js ''approved'', lastEditedDate := 5\<rparr>) = toItem driver6 d'"
    by blast
  with e show ?thesis by blast
qed

lemma PATCH_same_state:
  "snd (PATCH pf now request w) = snd (PATCH_typed pf now request w)"
proof (cases "json request = None \<or>
           (\<exists>body. json request = Some body \<and>
              (validatePatchBody body \<noteq> Inr () \<or> \<not> isValid pf (strOf (property body (js ''id''))))) \<or>
           \<not> reachable w")
  case True
  from PATCH_front_fail [OF True, of now] show ?thesis
    by (auto simp: PATCH_def PATCH_typed_def)
next
  case False
  then obtain body where b: "json request = Some body" "validatePatchBody body = Inr ()"
    "isValid pf (strOf (property body (js ''id'')))" "reachable w" by auto
  show ?thesis
    unfolding PATCH_def PATCH_typed_def PATCH_front [OF b]
    by (auto split: prod.splits sum.splits option.splits findResult.splits)
qed

lemma PATCH_differ_on_match:
  assumes "json request = Some body" and "validatePatchBody body = Inr ()"
    and "isValid pf (strOf (property body (js ''id'')))" and "reachable w"
    and "findOneAndUpdate pf (newObjectId pf (strOf (property body (js ''id''))))
           (strOf (property body (js ''status''))) now (snd (ensureRequestsCollection w))
         = (Inr (resolved pf (Some d)), w2)"
  shows "fst (PATCH pf now request w) \<noteq> fst (PATCH_typed pf now request w)"
  unfolding PATCH_def PATCH_typed_def PATCH_front [OF assms(1-4)] assms(5)
  by (simp add: resolved_def)

text \<open>
  C10 fails where a record is matched. With a driver that resolves
  \<^verbatim>\<open>findOneAndUpdate\<close> to the document, the \<^verbatim>\<open>PATCH\<close> that reads \<^verbatim>\<open>result.value\<close> updates the
  record and answers with the input-validation error, and the typed \<^verbatim>\<open>PATCH\<close> answers 200
  with the record. With a driver that resolves to a \<^verbatim>\<open>ModifyResult\<close>, the first answers
  200 and the typed one fails with the unknown-error response. The state they leave is
  the same.
\<close>

theorem PATCH_variants_disagree:
  "PATCH driver6 5 approveAda office = (Built INVALID_INPUT, officeApproved) \<and>
   PATCH_typed driver6 5 approveAda office =
     (Response 200 (Updated (toItem driver6 (ada\<lparr>status := js ''approved'', lastEditedDate := 5\<rparr>))),
      officeApproved) \<and>
   PATCH driver5 5 approveAda office =
     (Response 200 (Updated (toItem driver5 (ada\<lparr>status := js ''approved'', lastEditedDate := 5\<rparr>))),
      officeApproved) \<and>
   PATCH_typed driver5 5 approveAda office = (Built UNKNOWN_ERROR, officeApproved)"
proof -
  have six: "isValid driver6 (js ''65f0a1b2c3d4e5f601234567'')"
    "newObjectId driver6 (js ''65f0a1b2c3d4e5f601234567'') = 0x65F0A1B2C3D4E5F601234567"
    "\<not> includeResultMetadata driver6"
    by (simp_all add: driver6_def approveAda_valid)
  have five: "isValid driver5 (js ''65f0a1b2c3d4e5f601234567'')"
    "newObjectId driver5 (js ''65f0a1b2c3d4e5f601234567'') = 0x65F0A1B2C3D4E5F601234567"
    "includeResultMetadata driver5"
    by (simp_all add: driver5_def approveAda_valid length_js)
  show ?thesis
    by (simp add: PATCH_def PATCH_typed_def PATCH_try_approveAda [OF six(1,2)]
        PATCH_try_approveAda [OF five(1,2)] six(3) five(3))
qed

end
